theory Spec2Isabelle
  imports Complex_Main
begin

section \<open>Python values and the library calls the loader makes\<close>

text \<open>
  A cell of the data frame, a JSON value and a Cypher parameter are all Python objects.
  \<open>PNaN\<close> is the float NaN that pandas puts in an empty cell, \<open>PFloat\<close> a float
  that is a number. A string is a list of characters with a code below 256, and the
  white space that \<open>strip\<close> removes is what \<open>str.isspace\<close> accepts among them: the
  ASCII white space, the next-line character and the no-break space.
\<close>

datatype pyval =
    PNone
  | PNaN
  | PBool bool
  | PInt int
  | PFloat real
  | PStr string
  | PList "pyval list"
  | PDict "(string \<times> pyval) list"

datatype exn_class =
    FileNotFoundError | ValueError | TypeError | ReadError | StoreError
  | ServiceUnavailable | OtherError

text \<open>An exception object: its class and the text \<open>str(e)\<close> gives.\<close>

datatype exn = Exn exn_class string

fun exn_str :: "exn \<Rightarrow> string" where
  "exn_str (Exn c m) = m"

text \<open>The truth value of an object in a condition (\<open>if g\<close>, \<open>x if v else y\<close>).\<close>

fun truthy :: "pyval \<Rightarrow> bool" where
  "truthy PNone = False"
| "truthy PNaN = True"
| "truthy (PBool b) = b"
| "truthy (PInt i) = (i \<noteq> 0)"
| "truthy (PFloat x) = (x \<noteq> 0)"
| "truthy (PStr s) = (s \<noteq> [])"
| "truthy (PList xs) = (xs \<noteq> [])"
| "truthy (PDict kvs) = (kvs \<noteq> [])"

subsection \<open>Strings: \<open>strip\<close>, \<open>split(',')\<close>, \<open>replace("'", '"')\<close>\<close>

definition isspace :: "char \<Rightarrow> bool" where
  "isspace c = (c \<in> set [CHR 0x09, CHR 0x0A, CHR 0x0B, CHR 0x0C, CHR 0x0D,
                          CHR 0x1C, CHR 0x1D, CHR 0x1E, CHR 0x1F, CHR 0x20,
                          CHR 0x85, CHR 0xA0])"

definition strip :: "string \<Rightarrow> string" where
  "strip s = rev (dropWhile isspace (rev (dropWhile isspace s)))"

fun split_comma :: "string \<Rightarrow> string list" where
  "split_comma [] = [[]]"
| "split_comma (c # cs) =
     (if c = CHR 0x2C then [] # split_comma cs
      else (case split_comma cs of
              [] \<Rightarrow> [[c]]
            | w # ws \<Rightarrow> (c # w) # ws))"

definition replace_quotes :: "string \<Rightarrow> string" where
  "replace_quotes s = map (\<lambda>c. if c = CHR 0x27 then CHR 0x22 else c) s"

subsection \<open>The libraries: \<open>json.loads\<close> and the truth value of an empty array\<close>

text \<open>
  \<open>json.loads\<close> is the standard library's: the model takes it as a parameter. It
  returns a value, raises \<open>JSONDecodeError\<close>, or raises something else.

  The repository pins no release of NumPy, and a condition on an array of no element
  depends on it: up to 2.1 the array is false (with a deprecation warning), from 2.2
  the condition raises ValueError. \<open>empty_array\<close> is what the installed release does.
\<close>

datatype loads_result = Loaded pyval | JSONDecodeError | LoadsRaises exn

type_synonym json_loads = "string \<Rightarrow> loads_result"

record library =
  loads :: json_loads
  empty_array :: "exn + bool"

subsection \<open>\<open>pd.isna\<close> in a condition\<close>

text \<open>
  \<open>pd.isna\<close> answers a scalar with a bool and a list with the boolean array of
  \<open>np.asarray(v, dtype=object)\<close>. \<open>np_shape\<close> is the shape of that array: one
  dimension per nesting level for as long as the sublists are regular. A condition on
  an array of more than one element raises ValueError; an array of one element has
  the truth value of the element; an array of no element is the library's case.
\<close>

fun lcp :: "nat list \<Rightarrow> nat list \<Rightarrow> nat list" where
  "lcp (x # xs) (y # ys) = (if x = y then x # lcp xs ys else [])"
| "lcp _ _ = []"

fun common_prefix :: "nat list list \<Rightarrow> nat list" where
  "common_prefix [] = []"
| "common_prefix (d # ds) = fold lcp ds d"

fun np_shape :: "pyval \<Rightarrow> nat list" where
  "np_shape (PList xs) = length xs # common_prefix (map np_shape xs)"
| "np_shape _ = []"

fun checknull :: "pyval \<Rightarrow> bool" where
  "checknull PNone = True"
| "checknull PNaN = True"
| "checknull _ = False"

fun only_element :: "pyval \<Rightarrow> pyval" where
  "only_element (PList [x]) = only_element x"
| "only_element v = v"

definition ambiguous :: exn where
  "ambiguous = Exn ValueError
     ''The truth value of an array with more than one element is ambiguous. Use a.any() or a.all()''"

fun isna_truth :: "library \<Rightarrow> pyval \<Rightarrow> exn + bool" where
  "isna_truth L (PList xs) =
     (let n = prod_list (np_shape (PList xs))
      in if n = 0 then empty_array L
         else if n = 1 then Inr (checknull (only_element (PList xs)))
         else Inl ambiguous)"
| "isna_truth L v = Inr (checknull v)"

subsection \<open>Iteration and the filter of line 109\<close>

text \<open>The TypeError of \<open>for g in genres\<close>: its text names the type of the object.\<close>

fun type_name :: "pyval \<Rightarrow> string" where
  "type_name PNone = ''NoneType''"
| "type_name PNaN = ''float''"
| "type_name (PBool b) = ''bool''"
| "type_name (PInt i) = ''int''"
| "type_name (PFloat x) = ''float''"
| "type_name (PStr s) = ''str''"
| "type_name (PList xs) = ''list''"
| "type_name (PDict kvs) = ''dict''"

definition not_iterable :: "pyval \<Rightarrow> exn" where
  "not_iterable v =
     Exn TypeError ([CHR 0x27] @ type_name v @ [CHR 0x27] @ '' object is not iterable'')"

fun py_iter :: "pyval \<Rightarrow> exn + pyval list" where
  "py_iter (PList xs) = Inr xs"
| "py_iter (PStr s) = Inr (map (\<lambda>c. PStr [c]) s)"
| "py_iter (PDict kvs) = Inr (map (\<lambda>kv. PStr (fst kv)) kvs)"
| "py_iter v = Inl (not_iterable v)"

text \<open>\<open>str(g).strip()\<close> as a condition: \<open>str\<close> of anything but a string is never blank.\<close>

fun str_strip_truthy :: "pyval \<Rightarrow> bool" where
  "str_strip_truthy (PStr s) = (strip s \<noteq> [])"
| "str_strip_truthy _ = True"

text \<open>\<open>g and not pd.isna(g) and str(g).strip()\<close>, evaluated left to right.\<close>

definition keep_genre :: "library \<Rightarrow> pyval \<Rightarrow> exn + bool" where
  "keep_genre L g =
     (if \<not> truthy g then Inr False
      else (case isna_truth L g of
              Inl e \<Rightarrow> Inl e
            | Inr b \<Rightarrow> if b then Inr False else Inr (str_strip_truthy g)))"

fun filter_genres :: "library \<Rightarrow> pyval list \<Rightarrow> exn + pyval list" where
  "filter_genres L [] = Inr []"
| "filter_genres L (g # gs) =
     (case keep_genre L g of
        Inl e \<Rightarrow> Inl e
      | Inr k \<Rightarrow> (case filter_genres L gs of
                    Inl e \<Rightarrow> Inl e
                  | Inr r \<Rightarrow> Inr (if k then g # r else r)))"

section \<open>\<open>_process_movie_batch\<close>: cleaning the records (lines 84 to 114)\<close>

type_synonym row = "(string \<times> pyval) list"

text \<open>Lines 87 to 92: NaN becomes None, cell by cell; the condition may raise.\<close>

fun nan_to_none :: "library \<Rightarrow> row \<Rightarrow> exn + row" where
  "nan_to_none L [] = Inr []"
| "nan_to_none L (kv # kvs) =
     (case isna_truth L (snd kv) of
        Inl e \<Rightarrow> Inl e
      | Inr b \<Rightarrow> (case nan_to_none L kvs of
                    Inl e \<Rightarrow> Inl e
                  | Inr r \<Rightarrow> Inr ((fst kv, if b then PNone else snd kv) # r)))"

text \<open>Lines 97 to 106: the value of the local \<open>genres\<close>.\<close>

definition parse_genres :: "library \<Rightarrow> pyval \<Rightarrow> exn + pyval" where
  "parse_genres L v =
     (case v of
        PStr s \<Rightarrow>
          (if s = [] then Inr (PList [])
           else (case loads L (replace_quotes s) of
                   Loaded j \<Rightarrow> Inr j
                 | JSONDecodeError \<Rightarrow> Inr (PList (map (\<lambda>g. PStr (strip g)) (split_comma s)))
                 | LoadsRaises e \<Rightarrow> Inl e))
      | _ \<Rightarrow> Inr (if truthy v then v else PList []))"

text \<open>
  Lines 96 to 112: the list stored under \<open>genres\<close>, and the exception the warning
  reports when the \<open>except Exception\<close> of line 110 caught one.
\<close>

definition normalize_genres :: "library \<Rightarrow> pyval \<Rightarrow> pyval list \<times> exn option" where
  "normalize_genres L v =
     (case parse_genres L v of
        Inl e \<Rightarrow> ([], Some e)
      | Inr genres \<Rightarrow>
          (case py_iter genres of
             Inl e \<Rightarrow> ([], Some e)
           | Inr gs \<Rightarrow>
               (case filter_genres L gs of
                  Inl e \<Rightarrow> ([], Some e)
                | Inr r \<Rightarrow> (r, None))))"

text \<open>A dict as an association list: \<open>d[k] = v\<close> keeps the position of a key it has.\<close>

fun dict_set :: "'k \<Rightarrow> 'v \<Rightarrow> ('k \<times> 'v) list \<Rightarrow> ('k \<times> 'v) list" where
  "dict_set k v [] = [(k, v)]"
| "dict_set k v (kv # kvs) = (if fst kv = k then (k, v) # kvs else kv # dict_set k v kvs)"

text \<open>\<open>d.get(k)\<close>, and what Cypher reads as \<open>movie.k\<close>: None (null) for a missing key.\<close>

definition dict_get :: "row \<Rightarrow> string \<Rightarrow> pyval" where
  "dict_get d k = (case map_of d k of None \<Rightarrow> PNone | Some v \<Rightarrow> v)"

text \<open>One record of the loop of line 85: the clean record and the warnings logged.\<close>

definition clean_record :: "library \<Rightarrow> row \<Rightarrow> exn + (row \<times> (pyval \<times> exn) list)" where
  "clean_record L record =
     (case nan_to_none L record of
        Inl e \<Rightarrow> Inl e
      | Inr c \<Rightarrow>
          (case map_of c ''genres'' of
             None \<Rightarrow> Inr (c, [])
           | Some v \<Rightarrow>
               (case normalize_genres L v of
                  (gs, None) \<Rightarrow> Inr (dict_set ''genres'' (PList gs) c, [])
                | (gs, Some e) \<Rightarrow>
                    Inr (dict_set ''genres'' (PList gs) c,
                         [(case map_of c ''id'' of None \<Rightarrow> PStr ''unknown'' | Some i \<Rightarrow> i, e)]))))"

text \<open>
  The loop of line 85 over the batch: the clean records, or the exception that ends
  the call, and the warnings logged up to there.
\<close>

fun clean_batch :: "library \<Rightarrow> row list \<Rightarrow> (exn + row list) \<times> (pyval \<times> exn) list" where
  "clean_batch L [] = (Inr [], [])"
| "clean_batch L (r # rs) =
     (case clean_record L r of
        Inl e \<Rightarrow> (Inl e, [])
      | Inr (c, w) \<Rightarrow>
          (case clean_batch L rs of
             (Inl e, ws) \<Rightarrow> (Inl e, w @ ws)
           | (Inr cs, ws) \<Rightarrow> (Inr (c # cs), w @ ws)))"

section \<open>The graph store and the upsert query (lines 116 to 142)\<close>

text \<open>
  The store holds Movie nodes (the \<open>id\<close> and the six properties the query sets), Genre
  nodes (the \<open>name\<close>) and HAS_GENRE relationships (the ends, by key). They are lists:
  nothing in the type keeps a key from standing twice. A property that is None is a
  property the node does not have.
\<close>

record movie_props =
  title :: pyval
  overview :: pyval
  release_date :: pyval
  vote_average :: pyval
  vote_count :: pyval
  popularity :: pyval

record graph =
  movie_nodes :: "(pyval \<times> movie_props) list"
  genre_nodes :: "pyval list"
  has_genre :: "(pyval \<times> pyval) list"

definition empty_graph :: graph where
  "empty_graph = \<lparr>movie_nodes = [], genre_nodes = [], has_genre = []\<rparr>"

text \<open>\<open>CASE WHEN v IS NOT NULL THEN v ELSE d END\<close>\<close>

definition case_not_null :: "pyval \<Rightarrow> pyval \<Rightarrow> pyval" where
  "case_not_null v d = (if v \<noteq> PNone then v else d)"

text \<open>The \<open>SET\<close> clause: the properties written from one element of \<open>$movies\<close>.\<close>

definition set_clause :: "row \<Rightarrow> movie_props" where
  "set_clause movie =
     \<lparr>title = dict_get movie ''title'',
      overview = dict_get movie ''overview'',
      release_date = dict_get movie ''release_date'',
      vote_average = case_not_null (dict_get movie ''vote_average'') (PFloat 0),
      vote_count = case_not_null (dict_get movie ''vote_count'') (PInt 0),
      popularity = case_not_null (dict_get movie ''popularity'') (PFloat 0)\<rparr>"

text \<open>
  \<open>MERGE (m:Movie {id: i}) SET ...\<close>: every Movie node with that id is matched and
  written; when there is none, one is created.
\<close>

definition merge_set :: "pyval \<Rightarrow> movie_props \<Rightarrow> (pyval \<times> movie_props) list \<Rightarrow> (pyval \<times> movie_props) list" where
  "merge_set i p nodes =
     (if i \<in> fst ` set nodes then map (\<lambda>n. if fst n = i then (i, p) else n) nodes
      else nodes @ [(i, p)])"

definition merge_movie :: "row \<Rightarrow> graph \<Rightarrow> graph" where
  "merge_movie movie g =
     g\<lparr>movie_nodes := merge_set (dict_get movie ''id'') (set_clause movie) (movie_nodes g)\<rparr>"

text \<open>\<open>MERGE\<close> of a pattern with nothing to set: created only when it is not there.\<close>

definition merge_item :: "'a \<Rightarrow> 'a list \<Rightarrow> 'a list" where
  "merge_item x xs = (if x \<in> set xs then xs else xs @ [x])"

text \<open>\<open>MERGE (g:Genre {name: genre}) MERGE (m)-[:HAS_GENRE]->(g)\<close>\<close>

definition merge_genre :: "pyval \<Rightarrow> pyval \<Rightarrow> graph \<Rightarrow> graph" where
  "merge_genre i genre g =
     g\<lparr>genre_nodes := merge_item genre (genre_nodes g),
       has_genre := merge_item (i, genre) (has_genre g)\<rparr>"

text \<open>\<open>UNWIND\<close>: a list gives a row per element, null gives none, another value one.\<close>

fun unwind :: "pyval \<Rightarrow> pyval list" where
  "unwind (PList xs) = xs"
| "unwind PNone = []"
| "unwind v = [v]"

text \<open>\<open>UNWIND movie.genres as genre WITH m, genre WHERE genre IS NOT NULL MERGE ...\<close>\<close>

definition merge_genres :: "row \<Rightarrow> graph \<Rightarrow> graph" where
  "merge_genres movie g =
     fold (merge_genre (dict_get movie ''id''))
          (filter (\<lambda>genre. genre \<noteq> PNone) (unwind (dict_get movie ''genres''))) g"

text \<open>
  The whole query on \<open>$movies\<close>: the clauses up to \<open>WITH m, movie\<close> for every element,
  then the genre clauses for every element.
\<close>

definition run_upsert :: "row list \<Rightarrow> graph \<Rightarrow> graph" where
  "run_upsert movies g = fold merge_genres movies (fold merge_movie movies g)"

section \<open>The loader and its surroundings\<close>

text \<open>
  What the store or the driver does on one call is the environment's choice: the call
  returns, it raises, or (for a write) it raises after the transaction was committed.
  Every exception of this model is an \<open>Exception\<close>, the class the handlers catch.
\<close>

datatype outcome = Ok | Raises exn | CommitsThenRaises exn

fun raised :: "outcome \<Rightarrow> exn option" where
  "raised Ok = None"
| "raised (Raises e) = Some e"
| "raised (CommitsThenRaises e) = Some e"

fun committed :: "outcome \<Rightarrow> bool" where
  "committed Ok = True"
| "committed (Raises e) = False"
| "committed (CommitsThenRaises e) = True"

record env =
  path_exists :: "string \<Rightarrow> bool"
  read_csv :: "string \<Rightarrow> exn + row list"
  library :: library
  outcome_of :: "nat \<Rightarrow> outcome"

record handle =
  h_uri :: string
  h_user :: string
  h_password :: string
  h_serial :: nat

datatype statement = CreateConstraint | CreateIndex | Probe | Upsert "row list"

datatype logmsg =
    CsvNotFound string
  | ReadingCsv string
  | FoundMovies nat
  | Processed nat nat
  | BatchError nat nat exn
  | RetryFailed exn
  | Finished
  | Reconnecting
  | GenreWarning pyval exn

datatype event =
    LogInfo logmsg
  | LogWarning logmsg
  | LogError logmsg
  | ReadCsv string
  | Run nat statement
  | CloseDriver nat
  | OpenDriver string string string
  | Sleep real

text \<open>
  The loader object (\<open>uri\<close>, \<open>username\<close>, \<open>password\<close>, \<open>driver\<close>) together with
  what it acts on: the contents of the store, the number of calls made on the store
  and the driver, and the events so far, oldest first.
\<close>

record loader =
  uri :: string
  username :: string
  password :: string
  driver :: handle
  store :: graph
  calls :: nat
  trace :: "event list"

definition emit :: "event list \<Rightarrow> loader \<Rightarrow> loader" where
  "emit es s = s\<lparr>trace := trace s @ es\<rparr>"

text \<open>\<open>with self.driver.session() as session: session.run(stmt)\<close>\<close>

definition session_run :: "env \<Rightarrow> statement \<Rightarrow> loader \<Rightarrow> exn option \<times> loader" where
  "session_run E stmt s =
     (let out = outcome_of E (calls s);
          s' = s\<lparr>calls := Suc (calls s), trace := trace s @ [Run (h_serial (driver s)) stmt]\<rparr>
      in (raised out,
          case stmt of
            Upsert movies \<Rightarrow> if committed out then s'\<lparr>store := run_upsert movies (store s)\<rparr> else s'
          | _ \<Rightarrow> s'))"

text \<open>\<open>self.driver.close()\<close>\<close>

definition driver_close :: "env \<Rightarrow> loader \<Rightarrow> exn option \<times> loader" where
  "driver_close E s =
     (raised (outcome_of E (calls s)),
      s\<lparr>calls := Suc (calls s), trace := trace s @ [CloseDriver (h_serial (driver s))]\<rparr>)"

text \<open>\<open>self.driver = GraphDatabase.driver(self.uri, auth=(self.username, self.password))\<close>\<close>

definition open_driver :: "env \<Rightarrow> loader \<Rightarrow> exn option \<times> loader" where
  "open_driver E s =
     (let s' = s\<lparr>calls := Suc (calls s),
                 trace := trace s @ [OpenDriver (uri s) (username s) (password s)]\<rparr>
      in (case raised (outcome_of E (calls s)) of
            Some e \<Rightarrow> (Some e, s')
          | None \<Rightarrow>
              (None, s'\<lparr>driver := \<lparr>h_uri = uri s, h_user = username s, h_password = password s,
                                   h_serial = Suc (h_serial (driver s))\<rparr>\<rparr>)))"

text \<open>\<open>_ensure_connection\<close> (lines 147 to 159)\<close>

definition ensure_connection :: "env \<Rightarrow> loader \<Rightarrow> exn option \<times> loader" where
  "ensure_connection E s =
     (case session_run E Probe s of
        (None, s1) \<Rightarrow> (None, s1)
      | (Some e, s1) \<Rightarrow>
          (case driver_close E (emit [LogInfo Reconnecting] s1) of
             (Some e', s2) \<Rightarrow> (Some e', s2)
           | (None, s2) \<Rightarrow> open_driver E (emit [Sleep 1] s2)))"

text \<open>The warnings of line 111, one per record whose genres could not be read.\<close>

definition warnings :: "(pyval \<times> exn) list \<Rightarrow> event list" where
  "warnings ws = map (\<lambda>w. LogWarning (GenreWarning (fst w) (snd w))) ws"

text \<open>\<open>_process_movie_batch\<close> (lines 82 to 145)\<close>

definition process_movie_batch :: "env \<Rightarrow> row list \<Rightarrow> loader \<Rightarrow> exn option \<times> loader" where
  "process_movie_batch E batch s =
     (case clean_batch (library E) batch of
        (res, ws) \<Rightarrow>
          (let s1 = emit (warnings ws) s
           in (case res of
                 Inl e \<Rightarrow> (Some e, s1)
               | Inr cleaned \<Rightarrow> session_run E (Upsert cleaned) s1)))"

definition batch_size :: nat where
  "batch_size = 40000"

text \<open>
  The \<open>try\<close> block of the loop (lines 57 to 67) on the batch, with the running
  \<open>total_processed\<close>; \<open>n\<close> is \<open>len(df)\<close>.
\<close>

definition try_batch :: "env \<Rightarrow> nat \<Rightarrow> row list \<Rightarrow> loader \<times> nat \<Rightarrow> exn option \<times> loader \<times> nat" where
  "try_batch E n batch st =
     (case st of (s, total_processed) \<Rightarrow>
        (case process_movie_batch E batch s of
           (Some e, s1) \<Rightarrow> (Some e, s1, total_processed)
         | (None, s1) \<Rightarrow>
             (let total' = total_processed + length batch;
                  s2 = emit [LogInfo (Processed total' n), Sleep (1/2)] s1
              in if total' mod 50000 = 0
                 then (case ensure_connection E s2 of (r, s3) \<Rightarrow> (r, s3, total'))
                 else (None, s2, total'))))"

text \<open>
  One turn of the loop (lines 56 to 78) at offset \<open>i\<close>. An exception of the handler's
  own \<open>_ensure_connection\<close> leaves the loop; one of the retry is logged.
\<close>

definition load_batch :: "env \<Rightarrow> row list \<Rightarrow> nat \<Rightarrow> loader \<times> nat \<Rightarrow> exn option \<times> loader \<times> nat" where
  "load_batch E df i st =
     (let batch = take batch_size (drop i df)
      in (case try_batch E (length df) batch st of
            (None, st') \<Rightarrow> (None, st')
          | (Some e, s1, total_processed) \<Rightarrow>
              (case ensure_connection E (emit [LogError (BatchError i (i + batch_size) e)] s1) of
                 (Some e', s2) \<Rightarrow> (Some e', s2, total_processed)
               | (None, s2) \<Rightarrow>
                   (case process_movie_batch E batch s2 of
                      (None, s3) \<Rightarrow> (None, s3, total_processed)
                    | (Some retry_e, s3) \<Rightarrow>
                        (None, emit [LogError (RetryFailed retry_e)] s3, total_processed)))))"

text \<open>\<open>for i in range(0, len(df), batch_size)\<close>, from offset \<open>i\<close> on.\<close>

function load_loop :: "env \<Rightarrow> row list \<Rightarrow> nat \<Rightarrow> loader \<times> nat \<Rightarrow> exn option \<times> loader \<times> nat" where
  "load_loop E df i st =
     (if i < length df
      then (case load_batch E df i st of
              (Some e, st') \<Rightarrow> (Some e, st')
            | (None, st') \<Rightarrow> load_loop E df (i + batch_size) st')
      else (None, st))"
  by pat_completeness auto
termination
  by (relation "measure (\<lambda>(E, df, i, st). length df - i)") (auto simp: batch_size_def)

text \<open>\<open>load_movies\<close> (lines 36 to 80)\<close>

definition load_movies :: "env \<Rightarrow> string \<Rightarrow> loader \<Rightarrow> exn option \<times> loader" where
  "load_movies E csv_path s =
     (if \<not> path_exists E csv_path
      then (Some (Exn FileNotFoundError (''CSV file not found: '' @ csv_path)),
            emit [LogError (CsvNotFound csv_path)] s)
      else (case read_csv E csv_path of
              Inl e \<Rightarrow> (Some e, emit [LogInfo (ReadingCsv csv_path), ReadCsv csv_path] s)
            | Inr df \<Rightarrow>
                (case session_run E CreateConstraint
                        (emit [LogInfo (ReadingCsv csv_path), ReadCsv csv_path,
                               LogInfo (FoundMovies (length df))] s) of
                   (Some e, s1) \<Rightarrow> (Some e, s1)
                 | (None, s1) \<Rightarrow>
                     (case session_run E CreateIndex s1 of
                        (Some e, s2) \<Rightarrow> (Some e, s2)
                      | (None, s2) \<Rightarrow>
                          (case load_loop E df 0 (s2, 0) of
                             (Some e, s3, total_processed) \<Rightarrow> (Some e, s3)
                           | (None, s3, total_processed) \<Rightarrow>
                               (None, emit [LogInfo Finished] s3))))))"

declare load_loop.simps [simp del]

section \<open>The query interface\<close>

text \<open>
  The calls of \<open>MovieQueryInterface\<close> that leave the program: building the
  \<open>Neo4jGraph\<close>, its test query, building the model and the chain, and
  \<open>qa_chain.run\<close>. The environment decides each by the number of calls made before.
\<close>

record qenv =
  q_outcome_of :: "nat \<Rightarrow> exn option"
  answer_of :: "nat \<Rightarrow> string \<Rightarrow> exn + string"

datatype qevent =
    NewGraph string string string
  | TestQuery
  | AttemptFailed nat
  | QSleep real
  | NewLlm string
  | NewChain
  | Querying string
  | ChainRun string
  | QueryError string exn

record query_interface =
  q_uri :: string
  q_username :: string
  q_password :: string
  gemini_api_key :: string
  graph_of :: "nat option"
  llm_of :: "nat option"
  qa_chain :: "nat option"
  q_calls :: nat
  q_trace :: "qevent list"

definition qemit :: "qevent list \<Rightarrow> query_interface \<Rightarrow> query_interface" where
  "qemit es q = q\<lparr>q_trace := q_trace q @ es\<rparr>"

text \<open>One call that may raise, with the event that records it.\<close>

definition qcall :: "qenv \<Rightarrow> qevent \<Rightarrow> query_interface \<Rightarrow> exn option \<times> query_interface" where
  "qcall E ev q =
     (q_outcome_of E (q_calls q), q\<lparr>q_calls := Suc (q_calls q), q_trace := q_trace q @ [ev]\<rparr>)"

text \<open>The \<open>try\<close> block of lines 30 to 37: construct the graph, then test it.\<close>

definition try_connect :: "qenv \<Rightarrow> query_interface \<Rightarrow> exn option \<times> query_interface" where
  "try_connect E q =
     (case qcall E (NewGraph (q_uri q) (q_username q) (q_password q)) q of
        (Some e, q1) \<Rightarrow> (Some e, q1)
      | (None, q1) \<Rightarrow> qcall E TestQuery (q1\<lparr>graph_of := Some (q_calls q)\<rparr>))"

definition max_retries :: nat where
  "max_retries = 3"

text \<open>\<open>for attempt in range(max_retries)\<close> (lines 28 to 42), from \<open>attempt\<close> on.\<close>

function connect_loop :: "qenv \<Rightarrow> nat \<Rightarrow> query_interface \<Rightarrow> exn option \<times> query_interface" where
  "connect_loop E attempt q =
     (if attempt < max_retries
      then (case try_connect E q of
              (None, q1) \<Rightarrow> (None, q1)
            | (Some e, q1) \<Rightarrow>
                if attempt = max_retries - 1 then (Some e, q1)
                else connect_loop E (attempt + 1)
                       (qemit [AttemptFailed (attempt + 1), QSleep 2] q1))
      else (None, q))"
  by pat_completeness auto
termination
  by (relation "measure (\<lambda>(E, attempt, q). max_retries - attempt)") auto

text \<open>\<open>_initialize_connections\<close> (lines 24 to 58)\<close>

definition initialize_connections :: "qenv \<Rightarrow> query_interface \<Rightarrow> exn option \<times> query_interface" where
  "initialize_connections E q =
     (case connect_loop E 0 q of
        (Some e, q1) \<Rightarrow> (Some e, q1)
      | (None, q1) \<Rightarrow>
          (case qcall E (NewLlm (gemini_api_key q1)) q1 of
             (Some e, q2) \<Rightarrow> (Some e, q2)
           | (None, q2) \<Rightarrow>
               (case qcall E NewChain (q2\<lparr>llm_of := Some (q_calls q1)\<rparr>) of
                  (Some e, q3) \<Rightarrow> (Some e, q3)
                | (None, q3) \<Rightarrow> (None, q3\<lparr>qa_chain := Some (q_calls q2)\<rparr>))))"

text \<open>\<open>__init__\<close> (lines 11 to 22): the constructor raises what the initialization raises.\<close>

definition new_query_interface ::
  "qenv \<Rightarrow> string \<Rightarrow> string \<Rightarrow> string \<Rightarrow> string \<Rightarrow> exn option \<times> query_interface" where
  "new_query_interface E u usr pw key =
     initialize_connections E
       \<lparr>q_uri = u, q_username = usr, q_password = pw, gemini_api_key = key,
        graph_of = None, llm_of = None, qa_chain = None, q_calls = 0, q_trace = []\<rparr>"

text \<open>\<open>self.qa_chain.run(question)\<close>\<close>

definition chain_run :: "qenv \<Rightarrow> string \<Rightarrow> query_interface \<Rightarrow> (exn + string) \<times> query_interface" where
  "chain_run E question q =
     (answer_of E (q_calls q) question,
      q\<lparr>q_calls := Suc (q_calls q), q_trace := q_trace q @ [ChainRun question]\<rparr>)"

definition questions :: "string list" where
  "questions =
     [''What are the top 5 highest-rated movies with at least 1000 votes?'',
      ''Which genres have the most movies?'',
      ''What are the most popular movies released in 2023?'',
      ''What are the average ratings for each genre?'',
      ''What are some hidden gems (high rating but low vote count)?'']"

text \<open>The loop of lines 84 to 91 over the questions left, with the dict so far.\<close>

fun ask_all ::
  "qenv \<Rightarrow> string list \<Rightarrow> (string \<times> string) list \<Rightarrow> query_interface
     \<Rightarrow> (string \<times> string) list \<times> query_interface" where
  "ask_all E [] insights q = (insights, q)"
| "ask_all E (question # rest) insights q =
     (case chain_run E question (qemit [Querying question] q) of
        (Inr result, q1) \<Rightarrow> ask_all E rest (dict_set question result insights) q1
      | (Inl e, q1) \<Rightarrow>
          ask_all E rest (dict_set question (''Error: '' @ exn_str e) insights)
            (qemit [QueryError question e] q1))"

text \<open>\<open>get_movie_insights\<close> (lines 73 to 93)\<close>

definition get_movie_insights :: "qenv \<Rightarrow> query_interface \<Rightarrow> (string \<times> string) list \<times> query_interface" where
  "get_movie_insights E q = ask_all E questions [] q"

declare connect_loop.simps [simp del]

section \<open>Auxiliary notions\<close>

text \<open>The \<open>MERGE ... SET\<close> clauses of a whole parameter list on the Movie nodes.\<close>

definition set_phase :: "row list \<Rightarrow> (pyval \<times> movie_props) list \<Rightarrow> (pyval \<times> movie_props) list" where
  "set_phase movies nodes = fold (\<lambda>m. merge_set (dict_get m ''id'') (set_clause m)) movies nodes"

text \<open>The properties the last element with id \<open>i\<close> sets, if there is one.\<close>

fun last_set :: "row list \<Rightarrow> pyval \<Rightarrow> movie_props option" where
  "last_set [] i = None"
| "last_set (m # ms) i =
     (case last_set ms i of
        Some p \<Rightarrow> Some p
      | None \<Rightarrow> if dict_get m ''id'' = i then Some (set_clause m) else None)"

text \<open>The rows \<open>UNWIND\<close> and \<open>WHERE\<close> leave of one element.\<close>

definition genre_rows :: "row \<Rightarrow> pyval list" where
  "genre_rows movie = filter (\<lambda>genre. genre \<noteq> PNone) (unwind (dict_get movie ''genres''))"

text \<open>The graph has the Genre nodes \<open>xs\<close> and the relationships from \<open>i\<close> to them.\<close>

definition holds :: "graph \<Rightarrow> pyval \<Rightarrow> pyval list \<Rightarrow> bool" where
  "holds g i xs = list_all (\<lambda>x. x \<in> set (genre_nodes g) \<and> (i, x) \<in> set (has_genre g)) xs"

definition covered :: "graph \<Rightarrow> row \<Rightarrow> bool" where
  "covered g movie = holds g (dict_get movie ''id'') (genre_rows movie)"

text \<open>A probe in the trace.\<close>

fun is_probe :: "event \<Rightarrow> bool" where
  "is_probe (Run h Probe) = True"
| "is_probe ev = False"

text \<open>An upsert in the trace.\<close>

fun is_upsert :: "event \<Rightarrow> bool" where
  "is_upsert (Run h (Upsert movies)) = True"
| "is_upsert ev = False"

text \<open>A field a record does not have: the cell is missing, None or NaN.\<close>

definition absent :: "row \<Rightarrow> string \<Rightarrow> bool" where
  "absent record f = (dict_get record f = PNone \<or> dict_get record f = PNaN)"

text \<open>
  The graph has a Movie node with the id \<open>i\<close>, and every node with this id has the
  default for each of the three vote fields that the record does not have.
\<close>

definition defaults_stored :: "row \<Rightarrow> pyval \<Rightarrow> graph \<Rightarrow> bool" where
  "defaults_stored record i g =
     (i \<in> fst ` set (movie_nodes g)
      \<and> (\<forall>n \<in> set (movie_nodes g). fst n = i \<longrightarrow>
            (absent record ''vote_average'' \<longrightarrow> vote_average (snd n) = PFloat 0)
          \<and> (absent record ''vote_count'' \<longrightarrow> vote_count (snd n) = PInt 0)
          \<and> (absent record ''popularity'' \<longrightarrow> popularity (snd n) = PFloat 0)))"

text \<open>A cell that is a Python list.\<close>

fun is_pylist :: "pyval \<Rightarrow> bool" where
  "is_pylist (PList xs) = True"
| "is_pylist v = False"

text \<open>A progress report in the trace.\<close>

fun is_progress :: "event \<Rightarrow> bool" where
  "is_progress (LogInfo (Processed k n)) = True"
| "is_progress ev = False"

text \<open>What \<open>get_movie_insights\<close> stores for a question: the answer, or the error text.\<close>

definition slot_text :: "exn + string \<Rightarrow> string" where
  "slot_text r = (case r of Inr result \<Rightarrow> result | Inl e \<Rightarrow> ''Error: '' @ exn_str e)"

text \<open>Events of the query interface, by kind.\<close>

fun is_chain_run :: "qevent \<Rightarrow> bool" where
  "is_chain_run (ChainRun question) = True"
| "is_chain_run ev = False"

fun is_new_graph :: "qevent \<Rightarrow> bool" where
  "is_new_graph (NewGraph u usr pw) = True"
| "is_new_graph ev = False"

fun is_qsleep :: "qevent \<Rightarrow> bool" where
  "is_qsleep (QSleep d) = True"
| "is_qsleep ev = False"

text \<open>
  The clean records of the batches from offset \<open>i\<close> on whose cleaning raises nothing:
  what a run without store failures writes.
\<close>

function applied :: "library \<Rightarrow> row list \<Rightarrow> nat \<Rightarrow> row list" where
  "applied L df i =
     (if i < length df
      then (case fst (clean_batch L (take batch_size (drop i df))) of
              Inl e \<Rightarrow> []
            | Inr cleaned \<Rightarrow> cleaned) @ applied L df (i + batch_size)
      else [])"
  by pat_completeness auto
termination
  by (relation "measure (\<lambda>(L, df, i). length df - i)") (auto simp: batch_size_def)

declare applied.simps [simp del]

section \<open>Concrete inputs\<close>

text \<open>A loader as \<open>__init__\<close> leaves it, on an empty store.\<close>

definition example_loader :: loader where
  "example_loader =
     \<lparr>uri = ''bolt://localhost:7687'', username = ''neo4j'', password = ''secret'',
      driver = \<lparr>h_uri = ''bolt://localhost:7687'', h_user = ''neo4j'',
                h_password = ''secret'', h_serial = 0\<rparr>,
      store = empty_graph, calls = 0, trace = []\<rparr>"

text \<open>The outcomes of the first calls, one after the other; every later call returns.\<close>

definition scripted :: "outcome list \<Rightarrow> nat \<Rightarrow> outcome" where
  "scripted outs n = (if n < length outs then outs ! n else Ok)"

text \<open>Libraries where \<open>json.loads\<close> rejects every text and an empty array is false.\<close>

definition example_library :: library where
  "example_library = \<lparr>loads = (\<lambda>t. JSONDecodeError), empty_array = Inr False\<rparr>"

text \<open>
  An environment where \<open>movies.csv\<close> holds \<open>df\<close> and no other path exists, with these
  libraries, and where the calls go as scripted.
\<close>

definition example_env :: "row list \<Rightarrow> outcome list \<Rightarrow> env" where
  "example_env df outs =
     \<lparr>path_exists = (\<lambda>p. p = ''movies.csv''),
      read_csv = (\<lambda>p. Inr df),
      library = example_library,
      outcome_of = scripted outs\<rparr>"

definition probe_down :: exn where
  "probe_down = Exn ServiceUnavailable ''connection lost''"

definition close_failed :: exn where
  "close_failed = Exn OtherError ''close failed''"

text \<open>Two rows as \<open>read_csv\<close> gives them, and what cleaning makes of them.\<close>

definition two_movies :: "row list" where
  "two_movies =
     [[(''id'', PInt 1), (''title'', PStr ''Heat''), (''vote_average'', PNaN),
       (''vote_count'', PNaN), (''popularity'', PNaN), (''genres'', PStr ''Action, Drama'')],
      [(''id'', PInt 2), (''title'', PStr ''Up''), (''vote_average'', PFloat 8),
       (''vote_count'', PInt 100), (''popularity'', PFloat 3), (''genres'', PNaN)]]"

definition two_movies_clean :: "row list" where
  "two_movies_clean =
     [[(''id'', PInt 1), (''title'', PStr ''Heat''), (''vote_average'', PNone),
       (''vote_count'', PNone), (''popularity'', PNone),
       (''genres'', PList [PStr ''Action'', PStr ''Drama''])],
      [(''id'', PInt 2), (''title'', PStr ''Up''), (''vote_average'', PFloat 8),
       (''vote_count'', PInt 100), (''popularity'', PFloat 3), (''genres'', PList [])]]"

text \<open>A row with an id and nothing else; eighty thousand of them make two full batches.\<close>

definition one_row :: row where
  "one_row = [(''id'', PInt 1)]"

text \<open>Three rows that differ, for a frame of three batches.\<close>

definition row_a :: row where
  "row_a = [(''id'', PInt 1)]"

definition row_b :: row where
  "row_b = [(''id'', PInt 2)]"

definition row_c :: row where
  "row_c = [(''id'', PInt 3)]"

text \<open>An exception of the store on an upsert.\<close>

definition upsert_failed :: exn where
  "upsert_failed = Exn StoreError ''upsert failed''"

text \<open>
  An environment where every path exists and none can be read: \<open>read_csv\<close> raises, as
  it does on a directory.
\<close>

definition is_a_directory :: exn where
  "is_a_directory = Exn ReadError ''Is a directory''"

definition directory_env :: env where
  "directory_env =
     \<lparr>path_exists = (\<lambda>p. True), read_csv = (\<lambda>p. Inl is_a_directory),
      library = example_library, outcome_of = (\<lambda>n. Ok)\<rparr>"

text \<open>
  The text of a JSON array of two genres, and libraries where \<open>json.loads\<close> reads this
  text as the list, reads \<open>5\<close> as the number and rejects every other text.
\<close>

definition array_text :: string where
  \<open>array_text = ''["Action","Drama"]''\<close>

definition toy_library :: library where
  "toy_library =
     \<lparr>loads = (\<lambda>t. if t = array_text then Loaded (PList [PStr ''Action'', PStr ''Drama''])
                   else if t = ''5'' then Loaded (PInt 5)
                   else JSONDecodeError),
      empty_array = Inr False\<rparr>"

text \<open>Six records of a CSV file, one per shape of the genres cell.\<close>

definition six_cells :: "row list" where
  "six_cells =
     [[(''id'', PInt 1), (''genres'', PStr array_text)],
      [(''id'', PInt 2), (''genres'', PStr ''Action, Drama'')],
      [(''id'', PInt 3), (''genres'', PStr [])],
      [(''id'', PInt 4), (''genres'', PNaN)],
      [(''id'', PInt 5), (''genres'', PStr ''5'')],
      [(''id'', PInt 6), (''genres'', PStr ''Action,, ,Drama'')]]"

definition six_cells_clean :: "row list" where
  "six_cells_clean =
     [[(''id'', PInt 1), (''genres'', PList [PStr ''Action'', PStr ''Drama''])],
      [(''id'', PInt 2), (''genres'', PList [PStr ''Action'', PStr ''Drama''])],
      [(''id'', PInt 3), (''genres'', PList [])],
      [(''id'', PInt 4), (''genres'', PList [])],
      [(''id'', PInt 5), (''genres'', PList [])],
      [(''id'', PInt 6), (''genres'', PList [PStr ''Action'', PStr ''Drama''])]]"

text \<open>Two records with one id: the first has no \<open>vote_average\<close>, the second has 8.\<close>

definition same_id_twice :: "row list" where
  "same_id_twice =
     [[(''id'', PInt 1), (''vote_average'', PNaN)],
      [(''id'', PInt 1), (''vote_average'', PFloat 8)]]"

text \<open>A record whose genres cell is a Python list of two strings.\<close>

definition native_list_record :: row where
  "native_list_record = [(''id'', PInt 1), (''genres'', PList [PStr ''Action'', PStr ''Drama''])]"

text \<open>An environment where no connection can be made and no question is answered.\<close>

definition refused :: exn where
  "refused = Exn ServiceUnavailable ''connection refused''"

definition down_qenv :: qenv where
  "down_qenv = \<lparr>q_outcome_of = (\<lambda>n. Some refused), answer_of = (\<lambda>n question. Inl refused)\<rparr>"

section \<open>Facts about the upsert query\<close>

subsection \<open>The Movie nodes\<close>

lemma merge_set_hit: "n \<in> set (merge_set i p l) \<Longrightarrow> fst n = i \<Longrightarrow> snd n = p"
  by (cases n) (force simp: merge_set_def split: if_splits)

lemma merge_set_miss: "n \<in> set (merge_set i p l) \<Longrightarrow> fst n \<noteq> i \<Longrightarrow> n \<in> set l"
  by (cases n) (auto simp: merge_set_def split: if_splits)

lemma map_fst_merge_set:
  "map fst (merge_set i p l) = (if i \<in> fst ` set l then map fst l else map fst l @ [i])"
  by (auto simp: merge_set_def intro!: map_idI[symmetric] simp: comp_def)

lemma keys_merge_set: "fst ` set (merge_set i p l) = insert i (fst ` set l)"
proof -
  have "fst ` set (merge_set i p l) = set (map fst (merge_set i p l))" by simp
  also have "\<dots> = insert i (fst ` set l)" by (auto simp: map_fst_merge_set)
  finally show ?thesis .
qed

lemma distinct_merge_set: "distinct (map fst l) \<Longrightarrow> distinct (map fst (merge_set i p l))"
  by (simp add: map_fst_merge_set)

lemma fold_merge_movie:
  "fold merge_movie ms g = g\<lparr>movie_nodes := set_phase ms (movie_nodes g)\<rparr>"
  by (induction ms arbitrary: g) (simp_all add: set_phase_def merge_movie_def)

lemma keys_set_phase:
  "fst ` set (set_phase ms l) = fst ` set l \<union> (\<lambda>m. dict_get m ''id'') ` set ms"
  by (induction ms arbitrary: l) (auto simp: set_phase_def keys_merge_set)

lemma distinct_set_phase: "distinct (map fst l) \<Longrightarrow> distinct (map fst (set_phase ms l))"
  by (induction ms arbitrary: l) (simp_all add: set_phase_def distinct_merge_set)

lemma set_phase_untouched:
  "last_set ms i = None \<Longrightarrow> n \<in> set (set_phase ms l) \<Longrightarrow> fst n = i \<Longrightarrow> n \<in> set l"
proof (induction ms arbitrary: l)
  case Nil
  then show ?case by (simp add: set_phase_def)
next
  case (Cons m ms)
  from Cons.prems(1) have none: "last_set ms i = None" and other: "dict_get m ''id'' \<noteq> i"
    by (auto split: option.splits if_splits)
  from Cons.prems(2) have "n \<in> set (set_phase ms (merge_set (dict_get m ''id'') (set_clause m) l))"
    by (simp add: set_phase_def)
  with Cons.IH[OF none _ Cons.prems(3)] have "n \<in> set (merge_set (dict_get m ''id'') (set_clause m) l)"
    by blast
  with other Cons.prems(3) show ?case by (auto dest: merge_set_miss)
qed

lemma set_phase_last:
  "n \<in> set (set_phase ms l) \<Longrightarrow> last_set ms (fst n) = Some p \<Longrightarrow> snd n = p"
proof (induction ms arbitrary: l)
  case Nil
  then show ?case by simp
next
  case (Cons m ms)
  let ?l = "merge_set (dict_get m ''id'') (set_clause m) l"
  from Cons.prems(1) have n: "n \<in> set (set_phase ms ?l)" by (simp add: set_phase_def)
  show ?case
  proof (cases "last_set ms (fst n)")
    case (Some q)
    with Cons.prems(2) have "q = p" by simp
    with Cons.IH[OF n] Some show ?thesis by simp
  next
    case None
    with Cons.prems(2) have hit: "dict_get m ''id'' = fst n" and p: "p = set_clause m"
      by (auto split: if_splits)
    from set_phase_untouched[OF None n] have "n \<in> set ?l" by simp
    with hit p show ?thesis by (auto dest: merge_set_hit)
  qed
qed

lemma set_phase_known:
  "(\<lambda>m. dict_get m ''id'') ` set ms \<subseteq> fst ` set l \<Longrightarrow>
   set_phase ms l = map (\<lambda>n. case last_set ms (fst n) of None \<Rightarrow> n | Some p \<Rightarrow> (fst n, p)) l"
proof (induction ms arbitrary: l)
  case Nil
  then show ?case by (simp add: set_phase_def)
next
  case (Cons m ms)
  let ?i = "dict_get m ''id''"
  let ?l = "merge_set ?i (set_clause m) l"
  from Cons.prems have here: "?i \<in> fst ` set l" and rest: "(\<lambda>m. dict_get m ''id'') ` set ms \<subseteq> fst ` set ?l"
    by (auto simp: keys_merge_set)
  have "set_phase (m # ms) l = set_phase ms ?l" by (simp add: set_phase_def)
  also have "\<dots> = map (\<lambda>n. case last_set ms (fst n) of None \<Rightarrow> n | Some p \<Rightarrow> (fst n, p)) ?l"
    by (rule Cons.IH[OF rest])
  also have "\<dots> = map (\<lambda>n. case last_set (m # ms) (fst n) of None \<Rightarrow> n | Some p \<Rightarrow> (fst n, p)) l"
    using here by (auto simp: merge_set_def split: option.splits)
  finally show ?case .
qed

lemma set_phase_idem: "set_phase ms (set_phase ms l) = set_phase ms l"
proof -
  let ?l = "set_phase ms l"
  have "(\<lambda>m. dict_get m ''id'') ` set ms \<subseteq> fst ` set ?l" by (auto simp: keys_set_phase)
  then have "set_phase ms ?l = map (\<lambda>n. case last_set ms (fst n) of None \<Rightarrow> n | Some p \<Rightarrow> (fst n, p)) ?l"
    by (rule set_phase_known)
  also have "\<dots> = ?l"
    by (rule map_idI) (auto split: option.splits dest: set_phase_last)
  finally show ?thesis .
qed

subsection \<open>The Genre nodes and the relationships\<close>

lemma set_merge_item: "set (merge_item x xs) = insert x (set xs)"
  by (auto simp: merge_item_def)

lemma distinct_merge_item: "distinct xs \<Longrightarrow> distinct (merge_item x xs)"
  by (simp add: merge_item_def)

lemma merge_item_known: "x \<in> set xs \<Longrightarrow> merge_item x xs = xs"
  by (simp add: merge_item_def)

lemma merge_genre_known:
  "x \<in> set (genre_nodes g) \<Longrightarrow> (i, x) \<in> set (has_genre g) \<Longrightarrow> merge_genre i x g = g"
  by (simp add: merge_genre_def merge_item_known)

lemma fold_merge_genre_known: "holds g i xs \<Longrightarrow> fold (merge_genre i) xs g = g"
  by (induction xs) (simp_all add: holds_def merge_genre_known)

lemma holds_merge_genre: "holds g i xs \<Longrightarrow> holds (merge_genre j y g) i xs"
  by (auto simp: holds_def merge_genre_def set_merge_item list_all_iff)

lemma holds_fold_merge_genre: "holds g i xs \<Longrightarrow> holds (fold (merge_genre j) ys g) i xs"
  by (induction ys arbitrary: g) (simp_all add: holds_merge_genre)

lemma holds_after_fold: "holds (fold (merge_genre i) xs g) i xs"
proof (induction xs arbitrary: g)
  case Nil
  then show ?case by (simp add: holds_def)
next
  case (Cons x xs)
  have "holds (merge_genre i x g) i [x]"
    by (simp add: holds_def merge_genre_def set_merge_item)
  then have "holds (fold (merge_genre i) xs (merge_genre i x g)) i [x]"
    by (rule holds_fold_merge_genre)
  with Cons.IH[of "merge_genre i x g"] show ?case by (simp add: holds_def)
qed

lemma merge_genres_known: "covered g m \<Longrightarrow> merge_genres m g = g"
  by (simp add: covered_def merge_genres_def genre_rows_def[symmetric] fold_merge_genre_known)

lemma covered_merge_genres: "covered g m \<Longrightarrow> covered (merge_genres m' g) m"
  by (simp add: covered_def merge_genres_def holds_fold_merge_genre)

lemma covered_after: "covered (merge_genres m g) m"
  by (simp add: covered_def merge_genres_def genre_rows_def[symmetric] holds_after_fold)

lemma covered_fold: "covered g m \<Longrightarrow> covered (fold merge_genres ms g) m"
  by (induction ms arbitrary: g) (simp_all add: covered_merge_genres)

lemma covered_after_fold: "m \<in> set ms \<Longrightarrow> covered (fold merge_genres ms g) m"
  by (induction ms arbitrary: g) (auto simp: covered_after covered_fold)

lemma fold_merge_genres_known: "list_all (covered g) ms \<Longrightarrow> fold merge_genres ms g = g"
  by (induction ms) (simp_all add: merge_genres_known)

lemma movie_nodes_merge_genres: "movie_nodes (merge_genres m g) = movie_nodes g"
proof -
  have "movie_nodes (fold (merge_genre i) xs g) = movie_nodes g" for i xs
    by (induction xs arbitrary: g) (simp_all add: merge_genre_def)
  then show ?thesis by (simp add: merge_genres_def)
qed

lemma movie_nodes_fold_merge_genres: "movie_nodes (fold merge_genres ms g) = movie_nodes g"
  by (induction ms arbitrary: g) (simp_all add: movie_nodes_merge_genres)

lemma run_upsert_idem: "run_upsert ms (run_upsert ms g) = run_upsert ms g"
proof -
  let ?g1 = "run_upsert ms g"
  have nodes: "movie_nodes ?g1 = set_phase ms (movie_nodes g)"
    by (simp add: run_upsert_def movie_nodes_fold_merge_genres fold_merge_movie)
  have "fold merge_movie ms ?g1 = ?g1"
    by (simp add: fold_merge_movie nodes set_phase_idem)
  moreover have "list_all (covered ?g1) ms"
    by (simp add: list_all_iff run_upsert_def covered_after_fold)
  ultimately show ?thesis
    by (simp add: run_upsert_def[of ms ?g1] fold_merge_genres_known)
qed

lemma graph_fields_merge_movie [simp]:
  "genre_nodes (merge_movie m g) = genre_nodes g" "has_genre (merge_movie m g) = has_genre g"
  by (simp_all add: merge_movie_def)

lemma graph_fields_fold_merge_movie:
  "genre_nodes (fold merge_movie ms g) = genre_nodes g" "has_genre (fold merge_movie ms g) = has_genre g"
  by (simp_all add: fold_merge_movie)

lemma distinct_fold_merge_genre:
  "distinct (genre_nodes g) \<Longrightarrow> distinct (genre_nodes (fold (merge_genre i) xs g))"
  "distinct (has_genre g) \<Longrightarrow> distinct (has_genre (fold (merge_genre i) xs g))"
  by (induction xs arbitrary: g) (simp_all add: merge_genre_def distinct_merge_item)

lemma distinct_fold_merge_genres:
  "distinct (genre_nodes g) \<Longrightarrow> distinct (genre_nodes (fold merge_genres ms g))"
  "distinct (has_genre g) \<Longrightarrow> distinct (has_genre (fold merge_genres ms g))"
  by (induction ms arbitrary: g) (simp_all add: merge_genres_def distinct_fold_merge_genre)

lemma run_upsert_distinct:
  "distinct (map fst (movie_nodes g)) \<Longrightarrow> distinct (map fst (movie_nodes (run_upsert ms g)))"
  "distinct (genre_nodes g) \<Longrightarrow> distinct (genre_nodes (run_upsert ms g))"
  "distinct (has_genre g) \<Longrightarrow> distinct (has_genre (run_upsert ms g))"
  by (simp_all add: run_upsert_def movie_nodes_fold_merge_genres fold_merge_movie
      distinct_set_phase distinct_fold_merge_genres graph_fields_fold_merge_movie)

lemma merge_genre_movie_nodes_update:
  "merge_genre i x (g\<lparr>movie_nodes := l\<rparr>) = (merge_genre i x g)\<lparr>movie_nodes := l\<rparr>"
  by (simp add: merge_genre_def)

lemma merge_genres_movie_nodes_update:
  "merge_genres m (g\<lparr>movie_nodes := l\<rparr>) = (merge_genres m g)\<lparr>movie_nodes := l\<rparr>"
proof -
  have "fold (merge_genre i) xs (g\<lparr>movie_nodes := l\<rparr>) = (fold (merge_genre i) xs g)\<lparr>movie_nodes := l\<rparr>"
    for i xs
    by (induction xs arbitrary: g) (simp_all add: merge_genre_movie_nodes_update)
  then show ?thesis by (simp add: merge_genres_def dict_get_def)
qed

lemma fold_merge_genres_movie_nodes_update:
  "fold merge_genres ms (g\<lparr>movie_nodes := l\<rparr>) = (fold merge_genres ms g)\<lparr>movie_nodes := l\<rparr>"
  by (induction ms arbitrary: g) (simp_all add: merge_genres_movie_nodes_update)

lemma set_phase_append: "set_phase (xs @ ys) l = set_phase ys (set_phase xs l)"
  by (simp add: set_phase_def)

lemma run_upsert_append: "run_upsert (xs @ ys) g = run_upsert ys (run_upsert xs g)"
  by (simp add: run_upsert_def fold_merge_movie fold_merge_genres_movie_nodes_update
      movie_nodes_fold_merge_genres set_phase_append)

lemma run_upsert_Nil [simp]: "run_upsert [] g = g"
  by (simp add: run_upsert_def)

lemma last_set_append:
  "last_set (xs @ ys) i = (case last_set ys i of Some p \<Rightarrow> Some p | None \<Rightarrow> last_set xs i)"
  by (induction xs) (auto split: option.splits)

lemma last_set_none: "(\<forall>m \<in> set ms. dict_get m ''id'' \<noteq> i) \<Longrightarrow> last_set ms i = None"
  by (induction ms) auto

lemma last_set_nth:
  assumes "k < length ms"
    and "\<forall>j. k < j \<and> j < length ms \<longrightarrow> dict_get (ms ! j) ''id'' \<noteq> dict_get (ms ! k) ''id''"
  shows "last_set ms (dict_get (ms ! k) ''id'') = Some (set_clause (ms ! k))"
proof -
  let ?i = "dict_get (ms ! k) ''id''"
  from assms(1) have ms: "ms = take k ms @ (ms ! k) # drop (Suc k) ms"
    by (simp add: id_take_nth_drop)
  have "\<forall>m \<in> set (drop (Suc k) ms). dict_get m ''id'' \<noteq> ?i"
  proof
    fix m assume "m \<in> set (drop (Suc k) ms)"
    then obtain j where "j < length (drop (Suc k) ms)" and "m = drop (Suc k) ms ! j"
      by (auto simp: in_set_conv_nth)
    then have "Suc k + j < length ms" and "m = ms ! (Suc k + j)" by simp_all
    with assms(2) show "dict_get m ''id'' \<noteq> ?i" by simp
  qed
  then have "last_set (drop (Suc k) ms) ?i = None" by (rule last_set_none)
  then have "last_set (take k ms @ (ms ! k) # drop (Suc k) ms) ?i = Some (set_clause (ms ! k))"
    by (simp add: last_set_append)
  with ms show ?thesis by simp
qed

lemma movie_nodes_run_upsert:
  "movie_nodes (run_upsert ms g) = set_phase ms (movie_nodes g)"
  by (simp add: run_upsert_def movie_nodes_fold_merge_genres fold_merge_movie)

section \<open>Facts about cleaning\<close>

lemma map_of_dict_set: "map_of (dict_set k v d) = (map_of d)(k \<mapsto> v)"
  by (induction d) (auto simp: fun_eq_iff)

lemma dict_get_dict_set: "dict_get (dict_set k v d) k' = (if k' = k then v else dict_get d k')"
  by (simp add: dict_get_def map_of_dict_set)

lemma fold_lcp_Nil: "fold lcp ds [] = []"
  by (induction ds) simp_all

lemma map_of_nan_to_none:
  "nan_to_none L r = Inr c \<Longrightarrow>
   map_of c k = map_option (\<lambda>v. if isna_truth L v = Inr True then PNone else v) (map_of r k)"
  by (induction r arbitrary: c) (auto split: sum.splits if_splits)

lemma dict_get_clean_record:
  assumes "clean_record L record = Inr (movie, w)" and "k \<noteq> ''genres''"
  shows "dict_get movie k =
           (if isna_truth L (dict_get record k) = Inr True then PNone else dict_get record k)"
proof -
  from assms(1) obtain c where c: "nan_to_none L record = Inr c"
    by (auto simp: clean_record_def split: sum.splits)
  have "dict_get movie k = dict_get c k"
    using assms c by (auto simp: clean_record_def dict_get_dict_set split: option.splits prod.splits)
  also have "\<dots> = (if isna_truth L (dict_get record k) = Inr True then PNone else dict_get record k)"
    by (simp add: dict_get_def map_of_nan_to_none[OF c] split: option.splits)
  finally show ?thesis .
qed

lemma absent_cell_cleaned:
  assumes "clean_record L record = Inr (movie, w)" and "k \<noteq> ''genres''"
    and "dict_get record k = PNone \<or> dict_get record k = PNaN"
  shows "dict_get movie k = PNone"
  using assms(3) by (auto simp: dict_get_clean_record[OF assms(1,2)])

lemma clean_batch_nth:
  "clean_batch L batch = (Inr movies, ws) \<Longrightarrow>
   length movies = length batch \<and>
   (\<forall>k < length batch. \<exists>w. clean_record L (batch ! k) = Inr (movies ! k, w))"
proof (induction batch arbitrary: movies ws)
  case Nil
  then show ?case by simp
next
  case (Cons r rs)
  from Cons.prems obtain c w cs ws' where
    r: "clean_record L r = Inr (c, w)" and rs: "clean_batch L rs = (Inr cs, ws')"
    and m: "movies = c # cs"
    by (auto split: sum.splits prod.splits)
  from Cons.IH[OF rs] r m show ?case by (auto simp: nth_Cons split: nat.splits)
qed

lemma clean_batch_replicate:
  "clean_record L r = Inr (c, []) \<Longrightarrow> clean_batch L (replicate n r) = (Inr (replicate n c), [])"
  by (induction n) simp_all

lemma clean_one_row: "clean_record L one_row = Inr (one_row, [])"
  by (simp add: clean_record_def one_row_def)

section \<open>Facts about the loader\<close>

lemma process_movie_batch_cases:
  "process_movie_batch E batch s =
     (case clean_batch (library E) batch of
        (Inl e, ws) \<Rightarrow> (Some e, emit (warnings ws) s)
      | (Inr cleaned, ws) \<Rightarrow>
          (raised (outcome_of E (calls s)),
           s\<lparr>calls := Suc (calls s),
             trace := trace s @ warnings ws @ [Run (h_serial (driver s)) (Upsert cleaned)],
             store := if committed (outcome_of E (calls s)) then run_upsert cleaned (store s)
                      else store s\<rparr>))"
  by (simp add: process_movie_batch_def session_run_def emit_def Let_def split: prod.splits sum.splits)

lemma ensure_connection_frame:
  "store (snd (ensure_connection E s)) = store s"
  "uri (snd (ensure_connection E s)) = uri s"
  by (simp_all add: ensure_connection_def session_run_def driver_close_def open_driver_def
      emit_def Let_def split: option.splits prod.splits)

lemma process_movie_batch_store:
  assumes "clean_batch (library E) batch = (Inr cleaned, ws)"
    and "process_movie_batch E batch s = (r, s')"
  shows "store s' = store s \<or> store s' = run_upsert cleaned (store s)"
    and "r = None \<Longrightarrow> store s' = run_upsert cleaned (store s)"
  using assms by (auto simp: process_movie_batch_cases split: if_splits elim: committed.elims raised.elims)

lemma load_loop_step:
  "i < length df \<Longrightarrow>
   load_loop E df i st =
     (case load_batch E df i st of
        (Some e, st') \<Rightarrow> (Some e, st')
      | (None, st') \<Rightarrow> load_loop E df (i + batch_size) st')"
  by (subst load_loop.simps) simp

lemma load_loop_done: "\<not> i < length df \<Longrightarrow> load_loop E df i st = (None, st)"
  by (subst load_loop.simps) simp

lemma applied_step:
  "i < length df \<Longrightarrow>
   applied L df i =
     (case fst (clean_batch L (take batch_size (drop i df))) of
        Inl e \<Rightarrow> [] | Inr cleaned \<Rightarrow> cleaned) @ applied L df (i + batch_size)"
  by (subst applied.simps) simp

lemma applied_done: "\<not> i < length df \<Longrightarrow> applied L df i = []"
  by (subst applied.simps) simp

text \<open>A run where no call raises.\<close>

lemma quiet_ensure_connection:
  "outcome_of E (calls s) = Ok \<Longrightarrow>
   ensure_connection E s = (None, s\<lparr>calls := calls s + 1, trace := trace s @ [Run (h_serial (driver s)) Probe]\<rparr>)"
  by (simp add: ensure_connection_def session_run_def emit_def Let_def)

lemma quiet_load_batch:
  assumes "\<forall>n. outcome_of E n = Ok"
  shows "\<exists>s'. load_batch E df i (s, t) =
           (None, s', snd (snd (load_batch E df i (s, t)))) \<and>
         store s' =
           run_upsert (case fst (clean_batch (library E) (take batch_size (drop i df))) of
                         Inl e \<Rightarrow> [] | Inr cleaned \<Rightarrow> cleaned) (store s)"
  using assms
  by (auto simp: load_batch_def try_batch_def process_movie_batch_cases quiet_ensure_connection
      emit_def Let_def split: prod.splits sum.splits)

lemma quiet_load_loop:
  assumes "\<forall>n. outcome_of E n = Ok"
  shows "\<exists>s' t'. load_loop E df i (s, t) = (None, s', t') \<and>
           store s' = run_upsert (applied (library E) df i) (store s)"
proof (induction "length df - i" arbitrary: i s t rule: less_induct)
  case less
  show ?case
  proof (cases "i < length df")
    case False
    then show ?thesis by (simp add: load_loop_done applied_done)
  next
    case True
    from quiet_load_batch[OF assms, of df i s t] obtain s1 t1 where
      b: "load_batch E df i (s, t) = (None, s1, t1)" and
      st: "store s1 = run_upsert (case fst (clean_batch (library E) (take batch_size (drop i df))) of
                         Inl e \<Rightarrow> [] | Inr cleaned \<Rightarrow> cleaned) (store s)"
      by blast
    from True have "length df - (i + batch_size) < length df - i"
      by (simp add: batch_size_def)
    from less[OF this, of s1 t1] obtain s' t' where
      l: "load_loop E df (i + batch_size) (s1, t1) = (None, s', t')" and
      st': "store s' = run_upsert (applied (library E) df (i + batch_size)) (store s1)"
      by blast
    from True b l have "load_loop E df i (s, t) = (None, s', t')"
      by (simp add: load_loop_step)
    moreover from st st' True have "store s' = run_upsert (applied (library E) df i) (store s)"
      by (simp add: applied_step[OF True] run_upsert_append)
    ultimately show ?thesis by blast
  qed
qed

lemma quiet_load_movies:
  assumes "\<forall>n. outcome_of E n = Ok" and "path_exists E p" and "read_csv E p = Inr df"
  shows "fst (load_movies E p s) = None"
    and "store (snd (load_movies E p s)) = run_upsert (applied (library E) df 0) (store s)"
proof -
  let ?s2 = "snd (session_run E CreateIndex (snd (session_run E CreateConstraint
             (emit [LogInfo (ReadingCsv p), ReadCsv p, LogInfo (FoundMovies (length df))] s))))"
  have s2: "store ?s2 = store s" by (simp add: session_run_def emit_def Let_def)
  from quiet_load_loop[OF assms(1), of df 0 ?s2 0] obtain s' t' where
    l: "load_loop E df 0 (?s2, 0) = (None, s', t')" and
    st: "store s' = run_upsert (applied (library E) df 0) (store ?s2)" by blast
  have "load_movies E p s = (None, emit [LogInfo Finished] s')"
    using assms l by (simp add: load_movies_def session_run_def Let_def emit_def)
  with st s2 show "fst (load_movies E p s) = None"
    and "store (snd (load_movies E p s)) = run_upsert (applied (library E) df 0) (store s)"
    by (simp_all add: emit_def)
qed

text \<open>A frame whose records are all cleaned goes to the store whole, in its order.\<close>

lemma clean_batch_drop:
  "clean_batch L df = (Inr movies, ws) \<Longrightarrow> \<exists>ws'. clean_batch L (drop i df) = (Inr (drop i movies), ws')"
proof (induction df arbitrary: i movies ws)
  case Nil
  then show ?case by simp
next
  case (Cons r rs)
  from Cons.prems obtain c w cs ws' where
    r: "clean_record L r = Inr (c, w)" and rs: "clean_batch L rs = (Inr cs, ws')"
    and m: "movies = c # cs"
    by (auto split: sum.splits prod.splits)
  show ?case
  proof (cases i)
    case 0
    with Cons.prems show ?thesis by simp
  next
    case (Suc j)
    with Cons.IH[OF rs, of j] m show ?thesis by simp
  qed
qed

lemma clean_batch_take:
  "clean_batch L df = (Inr movies, ws) \<Longrightarrow> \<exists>ws'. clean_batch L (take n df) = (Inr (take n movies), ws')"
proof (induction df arbitrary: n movies ws)
  case Nil
  then show ?case by simp
next
  case (Cons r rs)
  from Cons.prems obtain c w cs ws' where
    r: "clean_record L r = Inr (c, w)" and rs: "clean_batch L rs = (Inr cs, ws')"
    and m: "movies = c # cs"
    by (auto split: sum.splits prod.splits)
  show ?case
  proof (cases n)
    case 0
    then show ?thesis by simp
  next
    case (Suc j)
    from Cons.IH[OF rs, of j] obtain ws'' where "clean_batch L (take j rs) = (Inr (take j cs), ws'')"
      by blast
    with Suc m r show ?thesis by simp
  qed
qed

lemma applied_all_clean:
  assumes "clean_batch L df = (Inr movies, ws)"
  shows "applied L df i = drop i movies"
proof (induction "length df - i" arbitrary: i rule: less_induct)
  case less
  from clean_batch_nth[OF assms] have len: "length movies = length df" by simp
  show ?case
  proof (cases "i < length df")
    case False
    with len show ?thesis by (simp add: applied_done)
  next
    case True
    from clean_batch_drop[OF assms, of i] obtain w1 where
      "clean_batch L (drop i df) = (Inr (drop i movies), w1)" by blast
    from clean_batch_take[OF this, of batch_size] obtain w2 where
      b: "clean_batch L (take batch_size (drop i df)) = (Inr (take batch_size (drop i movies)), w2)"
      by blast
    from True have "length df - (i + batch_size) < length df - i"
      by (simp add: batch_size_def)
    from less[OF this] have "applied L df (i + batch_size) = drop (i + batch_size) movies" .
    then have "applied L df i = take batch_size (drop i movies) @ drop batch_size (drop i movies)"
      by (simp add: applied_step[OF True] b add.commute)
    then show ?thesis by (simp only: append_take_drop_id)
  qed
qed

lemma load_batch_after_failure:
  assumes "process_movie_batch E (take batch_size (drop i df)) s = (Some e, s1)"
  shows "load_batch E df i (s, tp) =
           (case ensure_connection E (emit [LogError (BatchError i (i + batch_size) e)] s1) of
              (Some e', s2) \<Rightarrow> (Some e', s2, tp)
            | (None, s2) \<Rightarrow>
                (case process_movie_batch E (take batch_size (drop i df)) s2 of
                   (None, s3) \<Rightarrow> (None, s3, tp)
                 | (Some retry_e, s3) \<Rightarrow> (None, emit [LogError (RetryFailed retry_e)] s3, tp)))"
  using assms by (simp add: load_batch_def try_batch_def Let_def)

lemma load_batch_after_success:
  assumes "process_movie_batch E (take batch_size (drop i df)) s = (None, s1)"
  shows "try_batch E (length df) (take batch_size (drop i df)) (s, tp) =
           (if (tp + length (take batch_size (drop i df))) mod 50000 = 0
            then (case ensure_connection E
                         (emit [LogInfo (Processed (tp + length (take batch_size (drop i df))) (length df)),
                                Sleep (1/2)] s1) of
                    (r, s3) \<Rightarrow> (r, s3, tp + length (take batch_size (drop i df))))
            else (None,
                  emit [LogInfo (Processed (tp + length (take batch_size (drop i df))) (length df)),
                        Sleep (1/2)] s1,
                  tp + length (take batch_size (drop i df))))"
  using assms by (simp add: try_batch_def Let_def)

lemma ensure_connection_trace:
  "\<exists>rest. trace (snd (ensure_connection E s)) = trace s @ Run (h_serial (driver s)) Probe # rest"
  by (simp add: ensure_connection_def session_run_def driver_close_def open_driver_def
      emit_def Let_def split: option.splits prod.splits)

lemma ensure_connection_extends: "\<exists>rest. trace (snd (ensure_connection E s)) = trace s @ rest"
  using ensure_connection_trace[of E s] by auto

lemma process_movie_batch_trace:
  "\<exists>rest. trace (snd (process_movie_batch E batch s)) = trace s @ rest"
  by (simp add: process_movie_batch_cases emit_def split: prod.splits sum.splits)

lemma process_movie_batch_frame:
  "driver (snd (process_movie_batch E batch s)) = driver s"
  by (simp add: process_movie_batch_cases emit_def split: prod.splits sum.splits)

lemma process_movie_batch_driver: "process_movie_batch E batch s = (r, s1) \<Longrightarrow> driver s1 = driver s"
  using process_movie_batch_frame[of E batch s] by simp

lemma process_movie_batch_final_store:
  assumes "clean_batch (library E) batch = (Inr cleaned, ws)"
  shows "store (snd (process_movie_batch E batch s))
           = (if committed (outcome_of E (calls s)) then run_upsert cleaned (store s) else store s)"
  using assms by (simp add: process_movie_batch_cases)

lemma load_batch_total:
  "snd (snd (load_batch E df i (s, tp))) =
     (if fst (process_movie_batch E (take batch_size (drop i df)) s) = None
      then tp + length (take batch_size (drop i df)) else tp)"
  by (simp add: load_batch_def try_batch_def Let_def split: prod.splits option.splits)

lemma load_loop_continue:
  "i < length df \<Longrightarrow> fst (load_batch E df i st) = None \<Longrightarrow>
   load_loop E df i st = load_loop E df (i + batch_size) (snd (load_batch E df i st))"
  by (cases "load_batch E df i st") (auto simp: load_loop_step)

lemma upsert_events_process:
  "clean_batch (library E) batch = (Inr cleaned, ws) \<Longrightarrow>
   filter is_upsert (trace (snd (process_movie_batch E batch s)))
     = filter is_upsert (trace s) @ [Run (h_serial (driver s)) (Upsert cleaned)]"
  by (simp add: process_movie_batch_cases warnings_def filter_map comp_def)

lemma upsert_events_ensure:
  "filter is_upsert (trace (snd (ensure_connection E s))) = filter is_upsert (trace s)"
  by (simp add: ensure_connection_def session_run_def driver_close_def open_driver_def
      emit_def Let_def split: option.splits prod.splits)

lemma progress_events_process:
  "filter is_progress (trace (snd (process_movie_batch E batch s))) = filter is_progress (trace s)"
  by (simp add: process_movie_batch_cases warnings_def emit_def filter_map comp_def
      split: prod.splits sum.splits)

lemma progress_events_ensure:
  "filter is_progress (trace (snd (ensure_connection E s))) = filter is_progress (trace s)"
  by (simp add: ensure_connection_def session_run_def driver_close_def open_driver_def
      emit_def Let_def split: option.splits prod.splits)

lemma load_batch_retry_effects:
  assumes first: "process_movie_batch E (take batch_size (drop i df)) s = (Some e, s1)"
    and check: "ensure_connection E (emit [LogError (BatchError i (i + batch_size) e)] s1) = (None, s2)"
    and cl: "clean_batch (library E) (take batch_size (drop i df)) = (Inr cleaned, ws)"
  shows "store (fst (snd (load_batch E df i (s, tp))))
           = (if committed (outcome_of E (calls s)) \<or> committed (outcome_of E (calls s2))
              then run_upsert cleaned (store s) else store s)"
    and "filter is_upsert (trace (fst (snd (load_batch E df i (s, tp)))))
           = filter is_upsert (trace s)
             @ [Run (h_serial (driver s)) (Upsert cleaned), Run (h_serial (driver s2)) (Upsert cleaned)]"
    and "filter is_progress (trace (fst (snd (load_batch E df i (s, tp)))))
           = filter is_progress (trace s)"
proof -
  let ?batch = "take batch_size (drop i df)"
  let ?s1' = "emit [LogError (BatchError i (i + batch_size) e)] s1"
  note lb = load_batch_after_failure[OF first, of tp]
  have s1: "store s1 = (if committed (outcome_of E (calls s)) then run_upsert cleaned (store s) else store s)"
    using process_movie_batch_final_store[OF cl, of s] first by simp
  have s2: "store s2 = store s1"
    using ensure_connection_frame(1)[of E ?s1'] check by (simp add: emit_def)
  have t1: "filter is_upsert (trace s1) = filter is_upsert (trace s) @ [Run (h_serial (driver s)) (Upsert cleaned)]"
    using upsert_events_process[OF cl, of s] first by simp
  have t2: "filter is_upsert (trace s2) = filter is_upsert (trace s1)"
    using upsert_events_ensure[of E ?s1'] check by (simp add: emit_def)
  have p1: "filter is_progress (trace s1) = filter is_progress (trace s)"
    using progress_events_process[of E ?batch s] first by simp
  have p2: "filter is_progress (trace s2) = filter is_progress (trace s1)"
    using progress_events_ensure[of E ?s1'] check by (simp add: emit_def)
  let ?s3 = "snd (process_movie_batch E ?batch s2)"
  have s3: "store ?s3 = (if committed (outcome_of E (calls s2)) then run_upsert cleaned (store s2) else store s2)"
    by (rule process_movie_batch_final_store[OF cl])
  have t3: "filter is_upsert (trace ?s3) = filter is_upsert (trace s2) @ [Run (h_serial (driver s2)) (Upsert cleaned)]"
    by (rule upsert_events_process[OF cl])
  have p3: "filter is_progress (trace ?s3) = filter is_progress (trace s2)"
    by (rule progress_events_process)
  have final: "store (fst (snd (load_batch E df i (s, tp)))) = store ?s3"
    "filter is_upsert (trace (fst (snd (load_batch E df i (s, tp))))) = filter is_upsert (trace ?s3)"
    "filter is_progress (trace (fst (snd (load_batch E df i (s, tp))))) = filter is_progress (trace ?s3)"
    using lb check by (auto simp: emit_def split: prod.splits option.splits)
  show "store (fst (snd (load_batch E df i (s, tp))))
           = (if committed (outcome_of E (calls s)) \<or> committed (outcome_of E (calls s2))
              then run_upsert cleaned (store s) else store s)"
    by (simp add: final s3 s2 s1 run_upsert_idem)
  show "filter is_upsert (trace (fst (snd (load_batch E df i (s, tp)))))
           = filter is_upsert (trace s)
             @ [Run (h_serial (driver s)) (Upsert cleaned), Run (h_serial (driver s2)) (Upsert cleaned)]"
    by (simp add: final t3 t2 t1)
  show "filter is_progress (trace (fst (snd (load_batch E df i (s, tp)))))
           = filter is_progress (trace s)"
    by (simp add: final p3 p2 p1)
qed

section \<open>The two rows, evaluated\<close>

lemma strip_examples: "strip ''Action'' = ''Action''" "strip '' Drama'' = ''Drama''" "strip ''Drama'' = ''Drama''"
  by (simp_all add: strip_def isspace_def)

lemma strip_more: "strip [] = []" "strip '' '' = []" "strip [CHR 0xA0] = []" "strip ''  '' = []"
  "strip (CHR 0xA0 # ''Drama'') = ''Drama''"
  by (simp_all add: strip_def isspace_def)

lemma clean_two_movies:
  "clean_batch example_library two_movies = (Inr two_movies_clean, [])"
  by (simp add: two_movies_def two_movies_clean_def clean_record_def normalize_genres_def
      parse_genres_def keep_genre_def strip_examples example_library_def)

lemma upsert_two_movies:
  "run_upsert two_movies_clean empty_graph =
     \<lparr>movie_nodes =
        [(PInt 1, \<lparr>title = PStr ''Heat'', overview = PNone, release_date = PNone,
                    vote_average = PFloat 0, vote_count = PInt 0, popularity = PFloat 0\<rparr>),
         (PInt 2, \<lparr>title = PStr ''Up'', overview = PNone, release_date = PNone,
                    vote_average = PFloat 8, vote_count = PInt 100, popularity = PFloat 3\<rparr>)],
      genre_nodes = [PStr ''Action'', PStr ''Drama''],
      has_genre = [(PInt 1, PStr ''Action''), (PInt 1, PStr ''Drama'')]\<rparr>"
  by (simp add: run_upsert_def two_movies_clean_def empty_graph_def merge_movie_def merge_set_def
      set_clause_def dict_get_def case_not_null_def merge_genres_def merge_genre_def merge_item_def)

lemma process_two_movies:
  "process_movie_batch (example_env df []) two_movies example_loader =
     (None, example_loader\<lparr>calls := 1, trace := [Run 0 (Upsert two_movies_clean)],
                           store := run_upsert two_movies_clean empty_graph\<rparr>)"
  by (simp add: process_movie_batch_cases example_env_def clean_two_movies scripted_def
      warnings_def example_loader_def)

lemma take_two_movies: "take batch_size two_movies = two_movies" "take 40000 two_movies = two_movies"
  by (simp_all add: batch_size_def two_movies_def)

lemma length_two_movies: "length two_movies = 2"
  by (simp add: two_movies_def)

lemma example_env_fields:
  "outcome_of (example_env df outs) n = scripted outs n"
  "library (example_env df outs) = example_library"
  "path_exists (example_env df outs) p = (p = ''movies.csv'')"
  "read_csv (example_env df outs) p = Inr df"
  by (simp_all add: example_env_def)

lemma process_two_movies_failing:
  "process_movie_batch (example_env df (Raises e # outs)) two_movies example_loader =
     (Some e, example_loader\<lparr>calls := 1, trace := [Run 0 (Upsert two_movies_clean)]\<rparr>)"
  by (simp add: process_movie_batch_cases example_env_def clean_two_movies scripted_def
      warnings_def example_loader_def)

lemma retry_two_movies:
  "load_batch (example_env df [Raises upsert_failed]) two_movies 0 (example_loader, tp)
     = (None,
        example_loader\<lparr>calls := 3,
                        trace := [Run 0 (Upsert two_movies_clean),
                                  LogError (BatchError 0 40000 upsert_failed),
                                  Run 0 Probe, Run 0 (Upsert two_movies_clean)],
                        store := run_upsert two_movies_clean empty_graph\<rparr>,
        tp)"
  by (simp add: load_batch_def try_batch_def take_two_movies Let_def
      ensure_connection_def session_run_def emit_def example_env_fields scripted_def
      process_movie_batch_cases clean_two_movies warnings_def batch_size_def example_loader_def)

lemma isna_truth_scalar: "\<not> is_pylist v \<Longrightarrow> isna_truth L v = Inr (checknull v)"
  by (cases v) simp_all

lemma nan_to_none_scalars:
  "list_all (\<lambda>kv. \<not> is_pylist (snd kv)) r \<Longrightarrow> \<exists>c. nan_to_none L r = Inr c"
  by (induction r) (auto simp: isna_truth_scalar)

lemma clean_record_total:
  "nan_to_none L r = Inr c \<Longrightarrow> \<exists>c' w. clean_record L r = Inr (c', w)"
  by (auto simp: clean_record_def split: option.splits prod.splits)

lemma normalize_genres_fallback: "normalize_genres L v = (gs, Some e) \<Longrightarrow> gs = []"
  by (auto simp: normalize_genres_def split: sum.splits)

lemma clean_record_genres:
  assumes "clean_record L r = Inr (c, w)" and "map_of r ''genres'' = Some v"
  shows "dict_get c ''genres''
           = PList (fst (normalize_genres L (if isna_truth L v = Inr True then PNone else v)))"
    and "map snd w
           = (case snd (normalize_genres L (if isna_truth L v = Inr True then PNone else v)) of
                None \<Rightarrow> [] | Some e \<Rightarrow> [e])"
proof -
  from assms(1) obtain c0 where c0: "nan_to_none L r = Inr c0"
    by (auto simp: clean_record_def split: sum.splits)
  let ?v = "if isna_truth L v = Inr True then PNone else v"
  have g: "map_of c0 ''genres'' = Some ?v"
    by (simp add: map_of_nan_to_none[OF c0] assms(2))
  obtain gs e where n: "normalize_genres L ?v = (gs, e)" by (cases "normalize_genres L ?v")
  from assms(1) c0 g n have c: "c = dict_set ''genres'' (PList gs) c0"
    by (auto simp: clean_record_def split: option.splits)
  show "dict_get c ''genres'' = PList (fst (normalize_genres L ?v))"
    by (simp add: c n dict_get_dict_set)
  show "map snd w = (case snd (normalize_genres L ?v) of None \<Rightarrow> [] | Some e \<Rightarrow> [e])"
    using assms(1) c0 g n
    by (auto simp: clean_record_def split: option.splits)
qed

lemma process_one_rows:
  "process_movie_batch (example_env df []) (replicate n one_row) example_loader
     = (None, example_loader\<lparr>calls := 1, trace := [Run 0 (Upsert (replicate n one_row))],
                             store := run_upsert (replicate n one_row) empty_graph\<rparr>)"
  by (simp add: process_movie_batch_cases example_env_fields clean_batch_replicate[OF clean_one_row]
      scripted_def warnings_def example_loader_def)

text \<open>
  A frame of 100000 rows goes to the store as batches of 40000, 40000 and 20000, in the
  order of the frame.
\<close>

lemma clean_rows: "clean_record L row_a = Inr (row_a, [])" "clean_record L row_b = Inr (row_b, [])"
  "clean_record L row_c = Inr (row_c, [])"
  by (simp_all add: clean_record_def row_a_def row_b_def row_c_def)

lemma hundred_thousand_in_three_batches:
  "filter is_upsert
     (trace (snd (load_movies
        (example_env (replicate 40000 row_a @ replicate 40000 row_b @ replicate 20000 row_c) [])
        ''movies.csv'' example_loader)))
   = [Run 0 (Upsert (replicate 40000 row_a)), Run 0 (Upsert (replicate 40000 row_b)),
      Run 0 (Upsert (replicate 20000 row_c))]"
  by (simp add: load_movies_def example_env_fields session_run_def emit_def scripted_def Let_def
      load_loop_step load_loop_done load_batch_def try_batch_def process_movie_batch_cases
      ensure_connection_def batch_size_def clean_batch_replicate[OF clean_rows(1)]
      clean_batch_replicate[OF clean_rows(2)] clean_batch_replicate[OF clean_rows(3)]
      warnings_def example_loader_def)

text \<open>
  A frame of 50000 rows whose first batch fails once: all of it is stored, the count ends
  at 10000 and no checkpoint is reached.
\<close>

lemma recovered_run:
  "load_movies (example_env (replicate 50000 one_row) [Ok, Ok, Raises upsert_failed])
       ''movies.csv'' example_loader
     = (None,
        example_loader
          \<lparr>calls := 6,
           trace := [LogInfo (ReadingCsv ''movies.csv''), ReadCsv ''movies.csv'',
                     LogInfo (FoundMovies 50000), Run 0 CreateConstraint, Run 0 CreateIndex,
                     Run 0 (Upsert (replicate 40000 one_row)),
                     LogError (BatchError 0 40000 upsert_failed), Run 0 Probe,
                     Run 0 (Upsert (replicate 40000 one_row)),
                     Run 0 (Upsert (replicate 10000 one_row)), LogInfo (Processed 10000 50000),
                     Sleep (1/2), LogInfo Finished],
           store := run_upsert (replicate 10000 one_row)
                      (run_upsert (replicate 40000 one_row) empty_graph)\<rparr>)"
  by (simp add: load_movies_def example_env_fields session_run_def emit_def scripted_def Let_def
      load_loop_step load_loop_done load_batch_def try_batch_def process_movie_batch_cases
      ensure_connection_def batch_size_def clean_batch_replicate[OF clean_one_row] warnings_def
      example_loader_def)

section \<open>Facts about the query interface\<close>

lemma ask_step:
  "ask_all E (question # rest) insights q =
     ask_all E rest (dict_set question (slot_text (answer_of E (q_calls q) question)) insights)
       (q\<lparr>q_calls := Suc (q_calls q),
          q_trace := q_trace q @ Querying question # ChainRun question #
                     (case answer_of E (q_calls q) question of
                        Inl e \<Rightarrow> [QueryError question e] | Inr result \<Rightarrow> [])\<rparr>)"
  by (simp add: chain_run_def qemit_def slot_text_def split: sum.splits)

lemma dict_set_new: "k \<notin> fst ` set d \<Longrightarrow> dict_set k v d = d @ [(k, v)]"
  by (induction d) auto

lemma ask_all_slots:
  "distinct qs \<Longrightarrow> set qs \<inter> fst ` set insights = {} \<Longrightarrow>
   fst (ask_all E qs insights q)
     = insights @ map (\<lambda>(k, question). (question, slot_text (answer_of E (q_calls q + k) question)))
                      (enumerate 0 qs)"
proof (induction qs arbitrary: insights q)
  case Nil
  then show ?case by simp
next
  case (Cons question rest)
  let ?ins = "dict_set question (slot_text (answer_of E (q_calls q) question)) insights"
  from Cons.prems have new: "question \<notin> fst ` set insights" by auto
  then have ins: "?ins = insights @ [(question, slot_text (answer_of E (q_calls q) question))]"
    by (rule dict_set_new)
  from Cons.prems have "distinct rest" and "set rest \<inter> fst ` set ?ins = {}"
    by (auto simp: ins)
  from Cons.IH[OF this] show ?case
    by (simp only: ask_step) (simp add: ins enumerate_Suc_eq[of 0] comp_def case_prod_beta)
qed

lemma ask_all_runs:
  "filter is_chain_run (q_trace (snd (ask_all E qs insights q)))
     = filter is_chain_run (q_trace q) @ map ChainRun qs"
proof (induction qs arbitrary: insights q)
  case Nil
  then show ?case by simp
next
  case (Cons question rest)
  show ?case
    by (simp only: ask_step Cons.IH) (simp split: sum.splits)
qed

lemma questions_distinct: "length questions = 5 \<and> distinct questions"
  by (simp add: questions_def)

lemma connect_loop_unrolled:
  "connect_loop E 0 q =
     (let a1 = try_connect E q
      in if fst a1 = None then a1
         else (let a2 = try_connect E (qemit [AttemptFailed 1, QSleep 2] (snd a1))
               in if fst a2 = None then a2
                  else try_connect E (qemit [AttemptFailed 2, QSleep 2] (snd a2))))"
proof -
  have third: "connect_loop E (Suc (Suc 0)) q' = try_connect E q'" for q'
    by (subst connect_loop.simps) (auto simp: max_retries_def split: prod.splits option.splits)
  have second: "connect_loop E (Suc 0) q' =
      (let a2 = try_connect E q'
       in if fst a2 = None then a2
          else try_connect E (qemit [AttemptFailed 2, QSleep 2] (snd a2)))" for q'
    by (subst connect_loop.simps)
       (auto simp: max_retries_def third Let_def numeral_2_eq_2 split: prod.splits option.splits)
  show ?thesis
    by (subst connect_loop.simps)
       (auto simp: max_retries_def second Let_def split: prod.splits option.splits)
qed

lemma try_connect_events:
  "filter is_new_graph (q_trace (snd (try_connect E q)))
     = filter is_new_graph (q_trace q) @ [NewGraph (q_uri q) (q_username q) (q_password q)]"
  "filter is_qsleep (q_trace (snd (try_connect E q))) = filter is_qsleep (q_trace q)"
  "q_uri (snd (try_connect E q)) = q_uri q"
  "q_username (snd (try_connect E q)) = q_username q"
  "q_password (snd (try_connect E q)) = q_password q"
  by (simp_all add: try_connect_def qcall_def split: option.splits)

lemma connect_loop_events:
  "\<exists>k. 1 \<le> k \<and> k \<le> 3
     \<and> filter is_new_graph (q_trace (snd (connect_loop E 0 q)))
         = filter is_new_graph (q_trace q)
           @ replicate k (NewGraph (q_uri q) (q_username q) (q_password q))
     \<and> filter is_qsleep (q_trace (snd (connect_loop E 0 q)))
         = filter is_qsleep (q_trace q) @ replicate (k - 1) (QSleep 2)
     \<and> (fst (connect_loop E 0 q) \<noteq> None \<longrightarrow> k = 3)"
proof -
  let ?g = "NewGraph (q_uri q) (q_username q) (q_password q)"
  let ?a1 = "try_connect E q"
  let ?q1 = "qemit [AttemptFailed 1, QSleep 2] (snd ?a1)"
  let ?a2 = "try_connect E ?q1"
  let ?q2 = "qemit [AttemptFailed 2, QSleep 2] (snd ?a2)"
  let ?a3 = "try_connect E ?q2"
  let ?P = "\<lambda>k. 1 \<le> k \<and> k \<le> (3::nat)
     \<and> filter is_new_graph (q_trace (snd (connect_loop E 0 q)))
         = filter is_new_graph (q_trace q) @ replicate k ?g
     \<and> filter is_qsleep (q_trace (snd (connect_loop E 0 q)))
         = filter is_qsleep (q_trace q) @ replicate (k - 1) (QSleep 2)
     \<and> (fst (connect_loop E 0 q) \<noteq> None \<longrightarrow> k = 3)"
  consider (one) "fst ?a1 = None" | (two) "fst ?a1 \<noteq> None" "fst ?a2 = None"
    | (three) "fst ?a1 \<noteq> None" "fst ?a2 \<noteq> None"
    by blast
  then show ?thesis
  proof cases
    case one
    then have "connect_loop E 0 q = ?a1" by (simp add: connect_loop_unrolled Let_def)
    with one have "?P 1" by (simp add: try_connect_events)
    then show ?thesis by blast
  next
    case two
    then have "connect_loop E 0 q = ?a2" by (auto simp: connect_loop_unrolled Let_def)
    with two have "?P 2"
      by (simp add: try_connect_events qemit_def numeral_2_eq_2)
    then show ?thesis by blast
  next
    case three
    then have "connect_loop E 0 q = ?a3" by (auto simp: connect_loop_unrolled Let_def)
    then have "?P 3"
      by (simp add: try_connect_events qemit_def numeral_3_eq_3)
    then show ?thesis by blast
  qed
qed

section \<open>The encodings of the genres cell\<close>

text \<open>
  The cells a CSV file gives. Let \<open>json.loads\<close> read the array text as the list of the
  two genres and reject the comma text. Then the record with the JSON string and the
  record with the comma string are both cleaned to Action, Drama, and the records with
  the empty string, NaN or None to no genre, each without a warning.
\<close>

lemma string_encodings_normalized:
  assumes json: "loads L array_text = Loaded (PList [PStr ''Action'', PStr ''Drama''])"
    and comma: "loads L ''Action, Drama'' = JSONDecodeError"
  shows "clean_record L [(''id'', PInt 1), (''genres'', PStr array_text)]
           = Inr ([(''id'', PInt 1), (''genres'', PList [PStr ''Action'', PStr ''Drama''])], [])"
    and "clean_record L [(''id'', PInt 1), (''genres'', PStr ''Action, Drama'')]
           = Inr ([(''id'', PInt 1), (''genres'', PList [PStr ''Action'', PStr ''Drama''])], [])"
    and "clean_record L [(''id'', PInt 1), (''genres'', PStr [])]
           = Inr ([(''id'', PInt 1), (''genres'', PList [])], [])"
    and "clean_record L [(''id'', PInt 1), (''genres'', PNaN)]
           = Inr ([(''id'', PInt 1), (''genres'', PList [])], [])"
    and "clean_record L [(''id'', PInt 1), (''genres'', PNone)]
           = Inr ([(''id'', PInt 1), (''genres'', PList [])], [])"
proof -
  have a: "normalize_genres L (PStr array_text) = ([PStr ''Action'', PStr ''Drama''], None)"
    using json
    by (simp add: normalize_genres_def parse_genres_def keep_genre_def replace_quotes_def
        strip_examples array_text_def)
  have b: "normalize_genres L (PStr ''Action, Drama'') = ([PStr ''Action'', PStr ''Drama''], None)"
    using comma
    by (simp add: normalize_genres_def parse_genres_def keep_genre_def replace_quotes_def
        strip_examples)
  have c: "normalize_genres L (PStr []) = ([], None)" "normalize_genres L PNone = ([], None)"
    by (simp_all add: normalize_genres_def parse_genres_def)
  show "clean_record L [(''id'', PInt 1), (''genres'', PStr array_text)]
           = Inr ([(''id'', PInt 1), (''genres'', PList [PStr ''Action'', PStr ''Drama''])], [])"
    by (simp add: clean_record_def a)
  show "clean_record L [(''id'', PInt 1), (''genres'', PStr ''Action, Drama'')]
           = Inr ([(''id'', PInt 1), (''genres'', PList [PStr ''Action'', PStr ''Drama''])], [])"
    by (simp add: clean_record_def b)
  show "clean_record L [(''id'', PInt 1), (''genres'', PStr [])]
           = Inr ([(''id'', PInt 1), (''genres'', PList [])], [])"
    by (simp add: clean_record_def c)
  show "clean_record L [(''id'', PInt 1), (''genres'', PNaN)]
           = Inr ([(''id'', PInt 1), (''genres'', PList [])], [])"
    by (simp add: clean_record_def c)
  show "clean_record L [(''id'', PInt 1), (''genres'', PNone)]
           = Inr ([(''id'', PInt 1), (''genres'', PList [])], [])"
    by (simp add: clean_record_def c)
qed

text \<open>
  The filter of line 109 drops the entries that are empty, blank, None, NaN or zero and
  keeps the others in their order, for a JSON array and for a comma string; the no-break
  space is white space to \<open>strip\<close>.
\<close>

lemma blank_entries_filtered:
  "loads L (replace_quotes t)
     = Loaded (PList [PStr ''Action'', PStr [], PNone, PNaN, PStr ''  '', PInt 0, PStr ''Drama'']) \<Longrightarrow>
   t \<noteq> [] \<Longrightarrow>
   normalize_genres L (PStr t) = ([PStr ''Action'', PStr ''Drama''], None)"
  "loads L (''Action,, ,'' @ [CHR 0xA0] @ ''Drama'') = JSONDecodeError \<Longrightarrow>
   normalize_genres L (PStr (''Action,, ,'' @ [CHR 0xA0] @ ''Drama''))
     = ([PStr ''Action'', PStr ''Drama''], None)"
  by (simp_all add: normalize_genres_def parse_genres_def keep_genre_def replace_quotes_def
        strip_examples strip_more)

text \<open>
  A cell that cannot be read as a list of genres: the JSON text of a number, a text on
  which \<open>json.loads\<close> raises something else than \<open>JSONDecodeError\<close>, a number in the
  frame. The record is cleaned with no genre and one warning, which names the id of the
  record (\<open>unknown\<close> when it has none) and the exception, and the batch goes to the
  store.
\<close>

lemma malformed_cell_warns:
  "loads L (replace_quotes t) = Loaded (PInt 5) \<Longrightarrow> t \<noteq> [] \<Longrightarrow>
   clean_record L [(''id'', PInt 7), (''genres'', PStr t)]
     = Inr ([(''id'', PInt 7), (''genres'', PList [])], [(PInt 7, not_iterable (PInt 5))])"
  "loads L (replace_quotes t) = LoadsRaises e \<Longrightarrow> t \<noteq> [] \<Longrightarrow>
   clean_record L [(''id'', PInt 7), (''genres'', PStr t)]
     = Inr ([(''id'', PInt 7), (''genres'', PList [])], [(PInt 7, e)])"
  "clean_record L [(''id'', PInt 7), (''genres'', PInt 5)]
     = Inr ([(''id'', PInt 7), (''genres'', PList [])], [(PInt 7, not_iterable (PInt 5))])"
  "clean_record L [(''genres'', PInt 5)]
     = Inr ([(''genres'', PList [])], [(PStr ''unknown'', not_iterable (PInt 5))])"
  "process_movie_batch E [[(''id'', PInt 7), (''genres'', PInt 5)]] s
     = (raised (outcome_of E (calls s)),
        s\<lparr>calls := Suc (calls s),
          trace := trace s @ [LogWarning (GenreWarning (PInt 7) (not_iterable (PInt 5))),
                              Run (h_serial (driver s)) (Upsert [[(''id'', PInt 7), (''genres'', PList [])]])],
          store := if committed (outcome_of E (calls s))
                   then run_upsert [[(''id'', PInt 7), (''genres'', PList [])]] (store s)
                   else store s\<rparr>)"
  by (simp_all add: clean_record_def normalize_genres_def parse_genres_def process_movie_batch_cases
      warnings_def)

text \<open>
  A record with no list among its cells is always cleaned, whatever its genres cell
  holds.
\<close>

lemma record_of_scalars_cleaned:
  "list_all (\<lambda>kv. \<not> is_pylist (snd kv)) r \<Longrightarrow> \<exists>c w. clean_record L r = Inr (c, w)"
  using nan_to_none_scalars clean_record_total by blast

text \<open>The six records, cleaned as one batch: six clean records and one warning.\<close>

lemma clean_six_cells:
  "clean_batch toy_library six_cells = (Inr six_cells_clean, [(PInt 5, not_iterable (PInt 5))])"
  by (simp add: six_cells_def six_cells_clean_def clean_record_def normalize_genres_def
      parse_genres_def keep_genre_def strip_examples strip_more toy_library_def replace_quotes_def
      array_text_def)

text \<open>
  A native list of one genre is accepted as it is: the array of line 89 has one element.
  The empty list is accepted where the empty array has a truth value.
\<close>

lemma short_native_lists:
  "clean_record L [(''id'', PInt 1), (''genres'', PList [PStr ''Action''])]
     = Inr ([(''id'', PInt 1), (''genres'', PList [PStr ''Action''])], [])"
  "clean_record L [(''id'', PInt 1), (''genres'', PList [])]
     = (case empty_array L of
          Inl e \<Rightarrow> Inl e
        | Inr b \<Rightarrow> Inr ([(''id'', PInt 1), (''genres'', PList [])], []))"
  by (simp_all add: clean_record_def normalize_genres_def parse_genres_def keep_genre_def
      strip_examples split: sum.splits)

text \<open>
  C1 fails on the native list. A record whose genres cell is the Python list
  \<open>["Action", "Drama"]\<close>, or any list of two or more strings, never reaches the
  normalization of its genres: the test \<open>pd.isna(value)\<close> of line 89 answers the list
  with an array of as many elements, the \<open>if\<close> raises ValueError outside the \<open>try\<close>
  of line 96, and \<open>_process_movie_batch\<close> raises before any call on the store, whatever
  the libraries, the environment and the state of the loader. In \<open>load_movies\<close> the
  retry raises the same, so the batch is logged as failed and the store never gets it.
\<close>

theorem native_list_genres_raise:
  "clean_record L native_list_record = Inl ambiguous
   \<and> clean_record L [(''id'', PInt 1), (''genres'', PList (PStr a # PStr b # map PStr names))]
       = Inl ambiguous
   \<and> process_movie_batch E [native_list_record] s = (Some ambiguous, s)
   \<and> load_movies (example_env [native_list_record] []) ''movies.csv'' example_loader
       = (None,
          example_loader
            \<lparr>calls := 3,
             trace := [LogInfo (ReadingCsv ''movies.csv''), ReadCsv ''movies.csv'',
                       LogInfo (FoundMovies 1), Run 0 CreateConstraint, Run 0 CreateIndex,
                       LogError (BatchError 0 40000 ambiguous), Run 0 Probe,
                       LogError (RetryFailed ambiguous), LogInfo Finished]\<rparr>)"
proof -
  have c: "clean_record L native_list_record = Inl ambiguous" for L
    by (simp add: clean_record_def native_list_record_def)
  have "prod_list (np_shape (PList (PStr a # PStr b # map PStr names))) = Suc (Suc (length names))"
    by (simp add: fold_lcp_Nil)
  then have l: "clean_record L [(''id'', PInt 1), (''genres'', PList (PStr a # PStr b # map PStr names))]
       = Inl ambiguous"
    by (simp add: clean_record_def Let_def del: np_shape.simps)
  have p: "process_movie_batch E [native_list_record] s = (Some ambiguous, s)" for E s
    by (simp add: process_movie_batch_cases c warnings_def emit_def)
  have "load_movies (example_env [native_list_record] []) ''movies.csv'' example_loader
       = (None,
          example_loader
            \<lparr>calls := 3,
             trace := [LogInfo (ReadingCsv ''movies.csv''), ReadCsv ''movies.csv'',
                       LogInfo (FoundMovies 1), Run 0 CreateConstraint, Run 0 CreateIndex,
                       LogError (BatchError 0 40000 ambiguous), Run 0 Probe,
                       LogError (RetryFailed ambiguous), LogInfo Finished]\<rparr>)"
    by (simp add: load_movies_def example_env_fields session_run_def emit_def scripted_def Let_def
        load_loop_step load_loop_done load_batch_def try_batch_def p ensure_connection_def
        batch_size_def example_loader_def)
  with c l p show ?thesis by simp
qed

section \<open>A batch that fails\<close>

text \<open>
  C2, as the code has it. The first \<open>_process_movie_batch\<close> of the batch at offset
  \<open>i\<close> raises \<open>e\<close>. The handler logs it and calls \<open>_ensure_connection\<close>, whose result
  is \<open>r\<close>. When that call raises, the exception leaves \<open>load_movies\<close>. When it returns,
  the turn of the loop raises nothing and \<open>total_processed\<close> stays: the same batch is
  processed once more; a retry that returns ends the turn, a retry that raises is logged;
  when cleaning succeeds the trace gains exactly two upserts of the same clean records,
  and the store holds the batch exactly when one of the two attempts was committed,
  written once even when both were; the loop goes on at \<open>i + batch_size\<close>. When the
  probe of the check returns, the check returns and the handle is the one before: there
  is no reconnect.
\<close>

theorem failed_batch_retried_once:
  assumes batch: "batch = take batch_size (drop i df)"
    and first: "process_movie_batch E batch s = (Some e, s1)"
    and check: "ensure_connection E (emit [LogError (BatchError i (i + batch_size) e)] s1) = (r, s2)"
  shows "(r \<noteq> None \<longrightarrow> load_batch E df i (s, tp) = (r, s2, tp))
       \<and> (r = None \<longrightarrow>
            fst (load_batch E df i (s, tp)) = None
          \<and> snd (snd (load_batch E df i (s, tp))) = tp
          \<and> (fst (process_movie_batch E batch s2) = None \<longrightarrow>
                load_batch E df i (s, tp) = (None, snd (process_movie_batch E batch s2), tp))
          \<and> (\<forall>retry_e. fst (process_movie_batch E batch s2) = Some retry_e \<longrightarrow>
                load_batch E df i (s, tp)
                  = (None, emit [LogError (RetryFailed retry_e)] (snd (process_movie_batch E batch s2)), tp))
          \<and> (\<forall>cleaned ws. clean_batch (library E) batch = (Inr cleaned, ws) \<longrightarrow>
                store (fst (snd (load_batch E df i (s, tp))))
                  = (if committed (outcome_of E (calls s)) \<or> committed (outcome_of E (calls s2))
                     then run_upsert cleaned (store s) else store s)
              \<and> filter is_upsert (trace (fst (snd (load_batch E df i (s, tp)))))
                  = filter is_upsert (trace s)
                    @ [Run (h_serial (driver s)) (Upsert cleaned), Run (h_serial (driver s2)) (Upsert cleaned)])
          \<and> (i < length df \<longrightarrow>
                load_loop E df i (s, tp)
                  = load_loop E df (i + batch_size) (snd (load_batch E df i (s, tp)))))
       \<and> (raised (outcome_of E (calls s1)) = None \<longrightarrow> r = None \<and> driver s2 = driver s1)"
proof -
  note lb = load_batch_after_failure[OF first[unfolded batch], of tp, folded batch]
  have raise: "r \<noteq> None \<longrightarrow> load_batch E df i (s, tp) = (r, s2, tp)"
    using lb check by (auto split: option.splits)
  have probe: "raised (outcome_of E (calls s1)) = None \<longrightarrow> r = None \<and> driver s2 = driver s1"
    using check
    by (auto simp: ensure_connection_def session_run_def emit_def Let_def split: option.splits)
  have ok: "fst (load_batch E df i (s, tp)) = None
          \<and> snd (snd (load_batch E df i (s, tp))) = tp
          \<and> (fst (process_movie_batch E batch s2) = None \<longrightarrow>
                load_batch E df i (s, tp) = (None, snd (process_movie_batch E batch s2), tp))
          \<and> (\<forall>retry_e. fst (process_movie_batch E batch s2) = Some retry_e \<longrightarrow>
                load_batch E df i (s, tp)
                  = (None, emit [LogError (RetryFailed retry_e)] (snd (process_movie_batch E batch s2)), tp))"
    if "r = None"
    using lb check that by (auto split: prod.splits option.splits)
  have stores: "store (fst (snd (load_batch E df i (s, tp))))
                  = (if committed (outcome_of E (calls s)) \<or> committed (outcome_of E (calls s2))
                     then run_upsert cleaned (store s) else store s)
              \<and> filter is_upsert (trace (fst (snd (load_batch E df i (s, tp)))))
                  = filter is_upsert (trace s)
                    @ [Run (h_serial (driver s)) (Upsert cleaned), Run (h_serial (driver s2)) (Upsert cleaned)]"
    if "r = None" and cl: "clean_batch (library E) batch = (Inr cleaned, ws)" for cleaned ws
    using load_batch_retry_effects(1,2)[OF first[unfolded batch] _ cl[unfolded batch], of s2 tp]
      check that(1) by simp
  have loop: "load_loop E df i (s, tp) = load_loop E df (i + batch_size) (snd (load_batch E df i (s, tp)))"
    if "r = None" and "i < length df"
    using ok[OF that(1)] that(2) by (simp add: load_loop_continue)
  show ?thesis
    using raise probe ok stores loop by blast
qed

theorem failed_batch_retried_once_witness:
  "two_movies = take batch_size (drop 0 two_movies)
   \<and> process_movie_batch (example_env [] [Raises upsert_failed]) two_movies example_loader
       = (Some upsert_failed, example_loader\<lparr>calls := 1, trace := [Run 0 (Upsert two_movies_clean)]\<rparr>)
   \<and> ensure_connection (example_env [] [Raises upsert_failed])
         (emit [LogError (BatchError 0 (0 + batch_size) upsert_failed)]
            (example_loader\<lparr>calls := 1, trace := [Run 0 (Upsert two_movies_clean)]\<rparr>))
       = (None, example_loader\<lparr>calls := 2,
                  trace := [Run 0 (Upsert two_movies_clean),
                            LogError (BatchError 0 40000 upsert_failed), Run 0 Probe]\<rparr>)
   \<and> fst (load_batch (example_env [] [Raises upsert_failed]) two_movies 0 (example_loader, 0)) = None
   \<and> store (fst (snd (load_batch (example_env [] [Raises upsert_failed]) two_movies 0
                          (example_loader, 0))))
       = run_upsert two_movies_clean empty_graph"
proof -
  let ?E = "example_env [] [Raises upsert_failed]"
  let ?s1 = "example_loader\<lparr>calls := 1, trace := [Run 0 (Upsert two_movies_clean)]\<rparr>"
  let ?s2 = "example_loader\<lparr>calls := 2,
                  trace := [Run 0 (Upsert two_movies_clean),
                            LogError (BatchError 0 40000 upsert_failed), Run 0 Probe]\<rparr>"
  have b: "two_movies = take batch_size (drop 0 two_movies)" by (simp add: take_two_movies)
  have first: "process_movie_batch ?E two_movies example_loader = (Some upsert_failed, ?s1)"
    by (rule process_two_movies_failing)
  have check: "ensure_connection ?E (emit [LogError (BatchError 0 (0 + batch_size) upsert_failed)] ?s1)
                 = (None, ?s2)"
    by (simp add: ensure_connection_def session_run_def emit_def Let_def example_env_fields
        scripted_def batch_size_def example_loader_def)
  from failed_batch_retried_once[OF b first check, of 0] b first check
  show ?thesis by (simp add: retry_two_movies)
qed

text \<open>
  C2 as stated fails twice. With an upsert that raises and a probe that returns, the
  batch is retried on the old handle: nothing is closed or opened. With an upsert that
  raises, a probe that raises and a \<open>close\<close> that raises, \<open>load_movies\<close> raises the
  exception of \<open>close\<close> to its caller.
\<close>

theorem retry_without_reconnect_and_raising_check:
  "load_movies (example_env two_movies [Ok, Ok, Raises upsert_failed]) ''movies.csv'' example_loader
     = (None,
        example_loader
          \<lparr>calls := 5,
           trace := [LogInfo (ReadingCsv ''movies.csv''), ReadCsv ''movies.csv'',
                     LogInfo (FoundMovies 2), Run 0 CreateConstraint, Run 0 CreateIndex,
                     Run 0 (Upsert two_movies_clean),
                     LogError (BatchError 0 40000 upsert_failed),
                     Run 0 Probe, Run 0 (Upsert two_movies_clean), LogInfo Finished],
           store := run_upsert two_movies_clean empty_graph\<rparr>)
   \<and> load_movies (example_env two_movies
                     [Ok, Ok, Raises upsert_failed, Raises probe_down, Raises close_failed])
        ''movies.csv'' example_loader
     = (Some close_failed,
        example_loader
          \<lparr>calls := 5,
           trace := [LogInfo (ReadingCsv ''movies.csv''), ReadCsv ''movies.csv'',
                     LogInfo (FoundMovies 2), Run 0 CreateConstraint, Run 0 CreateIndex,
                     Run 0 (Upsert two_movies_clean),
                     LogError (BatchError 0 40000 upsert_failed),
                     Run 0 Probe, LogInfo Reconnecting, CloseDriver 0]\<rparr>)"
  by (simp add: load_movies_def example_env_fields session_run_def emit_def scripted_def Let_def
      load_loop_step load_loop_done load_batch_def try_batch_def process_movie_batch_cases
      ensure_connection_def driver_close_def open_driver_def
      length_two_movies take_two_movies clean_two_movies warnings_def batch_size_def
      example_loader_def)

section \<open>The checkpoint\<close>

text \<open>
  C3, as the code has it. A batch is processed at its first attempt. When the running
  total is then a multiple of 50000, the progress report and the pause are followed by
  the probe of \<open>_ensure_connection\<close>, inside this turn of the loop and so before the
  next batch. When it is not a multiple, the turn ends after the pause with no probe.
  In particular a total of exactly 50000 brings the probe.
\<close>

theorem checkpoint_at_exact_multiples:
  assumes batch: "batch = take batch_size (drop i df)"
    and ok: "process_movie_batch E batch s = (None, s1)"
  shows "((tp + length batch) mod 50000 = 0 \<longrightarrow>
            (\<exists>rest. trace (fst (snd (load_batch E df i (s, tp))))
               = trace s1 @ [LogInfo (Processed (tp + length batch) (length df)), Sleep (1/2),
                             Run (h_serial (driver s)) Probe] @ rest))
       \<and> ((tp + length batch) mod 50000 \<noteq> 0 \<longrightarrow>
            load_batch E df i (s, tp)
              = (None, emit [LogInfo (Processed (tp + length batch) (length df)), Sleep (1/2)] s1,
                 tp + length batch))
       \<and> (tp + length batch = 50000 \<longrightarrow>
            (\<exists>rest. trace (fst (snd (load_batch E df i (s, tp))))
               = trace s1 @ [LogInfo (Processed 50000 (length df)), Sleep (1/2),
                             Run (h_serial (driver s)) Probe] @ rest))"
proof -
  let ?n = "tp + length batch"
  let ?s2 = "emit [LogInfo (Processed ?n (length df)), Sleep (1/2)] s1"
  note tb = load_batch_after_success[OF ok[unfolded batch], of tp, folded batch]
  have d: "driver s1 = driver s" using ok by (rule process_movie_batch_driver)
  have hit: "\<exists>rest. trace (fst (snd (load_batch E df i (s, tp))))
               = trace s1 @ [LogInfo (Processed ?n (length df)), Sleep (1/2),
                             Run (h_serial (driver s)) Probe] @ rest"
    if m: "?n mod 50000 = 0"
  proof -
    obtain r s3 where ec: "ensure_connection E ?s2 = (r, s3)" by (cases "ensure_connection E ?s2")
    from ensure_connection_trace[of E ?s2] ec obtain rest where
      t3: "trace s3 = trace ?s2 @ Run (h_serial (driver ?s2)) Probe # rest" by auto
    have tb': "try_batch E (length df) batch (s, tp) = (r, s3, ?n)"
      using tb m ec by simp
    show ?thesis
    proof (cases r)
      case None
      with tb' have "load_batch E df i (s, tp) = (None, s3, ?n)"
        by (simp add: load_batch_def batch Let_def)
      with t3 d show ?thesis by (simp add: emit_def)
    next
      case (Some e)
      let ?s4 = "emit [LogError (BatchError i (i + batch_size) e)] s3"
      obtain r5 s5 where e5: "ensure_connection E ?s4 = (r5, s5)" by (cases "ensure_connection E ?s4")
      from ensure_connection_extends[of E ?s4] e5 obtain rest5 where
        t5: "trace s5 = trace ?s4 @ rest5" by auto
      obtain r6 s6 where p6: "process_movie_batch E batch s5 = (r6, s6)"
        by (cases "process_movie_batch E batch s5")
      from process_movie_batch_trace[of E batch s5] p6 obtain rest6 where
        t6: "trace s6 = trace s5 @ rest6" by auto
      have "\<exists>more. trace (fst (snd (load_batch E df i (s, tp)))) = trace s3 @ more"
        using tb' Some e5 p6 t5 t6
        by (cases r5; cases r6) (auto simp: load_batch_def batch Let_def emit_def)
      with t3 d show ?thesis by (auto simp: emit_def)
    qed
  qed
  have miss: "load_batch E df i (s, tp) = (None, ?s2, ?n)" if "?n mod 50000 \<noteq> 0"
    using tb that by (simp add: load_batch_def batch Let_def)
  have "\<exists>rest. trace (fst (snd (load_batch E df i (s, tp))))
               = trace s1 @ [LogInfo (Processed 50000 (length df)), Sleep (1/2),
                             Run (h_serial (driver s)) Probe] @ rest"
    if "?n = 50000"
    using hit that by simp
  with hit miss show ?thesis by blast
qed

theorem checkpoint_at_exact_multiples_witness:
  "replicate 10000 one_row = take batch_size (drop 40000 (replicate 50000 one_row))
   \<and> process_movie_batch (example_env (replicate 50000 one_row) []) (replicate 10000 one_row)
         example_loader
       = (None, example_loader\<lparr>calls := 1, trace := [Run 0 (Upsert (replicate 10000 one_row))],
                               store := run_upsert (replicate 10000 one_row) empty_graph\<rparr>)
   \<and> 40000 + length (replicate 10000 one_row) = 50000
   \<and> load_movies (example_env (replicate 50000 one_row) []) ''movies.csv'' example_loader
       = (None,
          example_loader
            \<lparr>calls := 5,
             trace := [LogInfo (ReadingCsv ''movies.csv''), ReadCsv ''movies.csv'',
                       LogInfo (FoundMovies 50000), Run 0 CreateConstraint, Run 0 CreateIndex,
                       Run 0 (Upsert (replicate 40000 one_row)), LogInfo (Processed 40000 50000),
                       Sleep (1/2),
                       Run 0 (Upsert (replicate 10000 one_row)), LogInfo (Processed 50000 50000),
                       Sleep (1/2), Run 0 Probe, LogInfo Finished],
             store := run_upsert (replicate 10000 one_row)
                        (run_upsert (replicate 40000 one_row) empty_graph)\<rparr>)"
proof -
  let ?E = "example_env (replicate 50000 one_row) []"
  have b: "replicate 10000 one_row = take batch_size (drop 40000 (replicate 50000 one_row))"
    by (simp add: batch_size_def)
  have ok: "process_movie_batch ?E (replicate 10000 one_row) example_loader
       = (None, example_loader\<lparr>calls := 1, trace := [Run 0 (Upsert (replicate 10000 one_row))],
                               store := run_upsert (replicate 10000 one_row) empty_graph\<rparr>)"
    by (rule process_one_rows)
  have m: "40000 + length (replicate 10000 one_row) = 50000" by simp
  have run: "load_movies ?E ''movies.csv'' example_loader
       = (None,
          example_loader
            \<lparr>calls := 5,
             trace := [LogInfo (ReadingCsv ''movies.csv''), ReadCsv ''movies.csv'',
                       LogInfo (FoundMovies 50000), Run 0 CreateConstraint, Run 0 CreateIndex,
                       Run 0 (Upsert (replicate 40000 one_row)), LogInfo (Processed 40000 50000),
                       Sleep (1/2),
                       Run 0 (Upsert (replicate 10000 one_row)), LogInfo (Processed 50000 50000),
                       Sleep (1/2), Run 0 Probe, LogInfo Finished],
             store := run_upsert (replicate 10000 one_row)
                        (run_upsert (replicate 40000 one_row) empty_graph)\<rparr>)"
    by (simp add: load_movies_def example_env_fields session_run_def emit_def scripted_def Let_def
        load_loop_step load_loop_done load_batch_def try_batch_def process_movie_batch_cases
        ensure_connection_def batch_size_def clean_batch_replicate[OF clean_one_row] warnings_def
        example_loader_def)
  from checkpoint_at_exact_multiples[OF b ok, of 40000] b ok m run
  show ?thesis by - (intro conjI, assumption+)
qed

text \<open>
  C3 as stated fails: on 80000 records and a store that never fails the total goes from
  40000 to 80000, past 50000, and the whole run has no probe.
\<close>

theorem crossing_50000_without_probe:
  "load_movies (example_env (replicate 80000 one_row) []) ''movies.csv'' example_loader =
     (None,
      example_loader
        \<lparr>calls := 4,
         trace := [LogInfo (ReadingCsv ''movies.csv''), ReadCsv ''movies.csv'',
                   LogInfo (FoundMovies 80000), Run 0 CreateConstraint, Run 0 CreateIndex,
                   Run 0 (Upsert (replicate 40000 one_row)), LogInfo (Processed 40000 80000),
                   Sleep (1/2),
                   Run 0 (Upsert (replicate 40000 one_row)), LogInfo (Processed 80000 80000),
                   Sleep (1/2), LogInfo Finished],
         store := run_upsert (replicate 40000 one_row)
                    (run_upsert (replicate 40000 one_row) empty_graph)\<rparr>)"
  by (simp add: load_movies_def example_env_def session_run_def emit_def scripted_def Let_def
      load_loop_step load_loop_done load_batch_def try_batch_def process_movie_batch_cases
      batch_size_def clean_batch_replicate[OF clean_one_row] warnings_def example_loader_def)

section \<open>Loading twice\<close>

text \<open>
  C4. In a run where no call on the store raises, a second \<open>load_movies\<close> of the same
  path returns and leaves the store exactly as the first left it. A store that
  has no two Movie nodes with one id, no two Genre nodes with one name and no relationship
  twice is still so after the load. Re-issuing the query with the same parameter list
  changes nothing, on any store.
\<close>

theorem load_twice_same_graph:
  assumes "\<forall>n. outcome_of E n = Ok"
    and "fst (load_movies E p s) = None"
    and "distinct (map fst (movie_nodes (store s)))"
    and "distinct (genre_nodes (store s))"
    and "distinct (has_genre (store s))"
  shows "fst (load_movies E p (snd (load_movies E p s))) = None
       \<and> store (snd (load_movies E p (snd (load_movies E p s)))) = store (snd (load_movies E p s))
       \<and> distinct (map fst (movie_nodes (store (snd (load_movies E p s)))))
       \<and> distinct (genre_nodes (store (snd (load_movies E p s))))
       \<and> distinct (has_genre (store (snd (load_movies E p s))))
       \<and> run_upsert movies (run_upsert movies g) = run_upsert movies g"
proof -
  from assms(2) have ex: "path_exists E p" by (auto simp: load_movies_def split: if_splits)
  from assms(2) ex obtain df where df: "read_csv E p = Inr df"
    by (cases "read_csv E p") (auto simp: load_movies_def)
  note q = quiet_load_movies[OF assms(1) ex df]
  show ?thesis
    using assms(3-5) by (simp add: q run_upsert_idem run_upsert_distinct)
qed

theorem load_twice_same_graph_witness:
  "(\<forall>n. outcome_of (example_env two_movies []) n = Ok)
   \<and> fst (load_movies (example_env two_movies []) ''movies.csv'' example_loader) = None
   \<and> distinct (map fst (movie_nodes (store example_loader)))
   \<and> distinct (genre_nodes (store example_loader))
   \<and> distinct (has_genre (store example_loader))
   \<and> store (snd (load_movies (example_env two_movies []) ''movies.csv''
              (snd (load_movies (example_env two_movies []) ''movies.csv'' example_loader))))
     = store (snd (load_movies (example_env two_movies []) ''movies.csv'' example_loader))
   \<and> distinct (map fst (movie_nodes
         (store (snd (load_movies (example_env two_movies []) ''movies.csv'' example_loader)))))"
proof -
  have quiet: "\<forall>n. outcome_of (example_env two_movies []) n = Ok"
    by (simp add: example_env_def scripted_def)
  have returns: "fst (load_movies (example_env two_movies []) ''movies.csv'' example_loader) = None"
    by (rule quiet_load_movies(1)[OF quiet]) (simp_all add: example_env_def)
  have clean: "distinct (map fst (movie_nodes (store example_loader)))"
    "distinct (genre_nodes (store example_loader))" "distinct (has_genre (store example_loader))"
    by (simp_all add: example_loader_def empty_graph_def)
  from load_twice_same_graph[OF quiet returns clean] quiet returns clean
  show ?thesis by simp
qed

section \<open>The five questions\<close>

text \<open>
  C5. \<open>get_movie_insights\<close> returns a dict whose keys are the five questions, in their
  order. The slot of a question holds the answer when \<open>qa_chain.run\<close> returned one,
  and \<open>Error: \<close> followed by the text of the exception when it raised. Whatever raised,
  the chain is run once on each of the five questions.
\<close>

theorem insights_cover_all_questions:
  "fst (get_movie_insights E q)
     = map (\<lambda>(k, question). (question, slot_text (answer_of E (q_calls q + k) question)))
           (enumerate 0 questions)
   \<and> map fst (fst (get_movie_insights E q)) = questions
   \<and> length questions = 5
   \<and> distinct questions
   \<and> filter is_chain_run (q_trace (snd (get_movie_insights E q)))
       = filter is_chain_run (q_trace q) @ map ChainRun questions
   \<and> slot_text (Inl e) = ''Error: '' @ exn_str e
   \<and> slot_text (Inr result) = result"
  using questions_distinct
  by (simp add: get_movie_insights_def ask_all_slots ask_all_runs slot_text_def comp_def
      case_prod_beta)

section \<open>Absent vote fields\<close>

text \<open>
  What \<open>SET\<close> writes for a clean record stays on the nodes with its id for as long as
  no later element of the list has the same id.
\<close>

lemma defaults_on_nodes:
  assumes c: "clean_record L record = Inr (movie, w)"
    and last: "last_set ms (dict_get movie ''id'') = Some (set_clause movie)"
    and mem: "movie \<in> set ms"
    and nodes: "movie_nodes g = set_phase ms l"
  shows "defaults_stored record (dict_get movie ''id'') g"
proof -
  have there: "dict_get movie ''id'' \<in> fst ` set (movie_nodes g)"
    using mem by (simp add: nodes keys_set_phase)
  have written: "snd n = set_clause movie"
    if "n \<in> set (movie_nodes g)" and "fst n = dict_get movie ''id''" for n
    using that last set_phase_last[of n ms l] by (simp add: nodes)
  have marker: "dict_get movie f = PNone" if "absent record f" and "f \<noteq> ''genres''" for f
    using that absent_cell_cleaned[OF c] by (auto simp: absent_def)
  show ?thesis
    unfolding defaults_stored_def
    using there written marker by (auto simp: set_clause_def case_not_null_def)
qed

lemma defaults_after_merge_movie:
  assumes "clean_record L record = Inr (movie, w)"
  shows "defaults_stored record (dict_get movie ''id'') (merge_movie movie g)"
proof -
  have "movie_nodes (merge_movie movie g) = set_phase [movie] (movie_nodes g)"
    by (simp add: merge_movie_def set_phase_def)
  from defaults_on_nodes[OF assms _ _ this] show ?thesis by simp
qed

lemma defaults_after_run_upsert:
  assumes "clean_batch L rows = (Inr movies, ws)" and "k < length rows"
    and "\<forall>j. k < j \<and> j < length rows \<longrightarrow> dict_get (movies ! j) ''id'' \<noteq> dict_get (movies ! k) ''id''"
  shows "defaults_stored (rows ! k) (dict_get (movies ! k) ''id'') (run_upsert movies g)"
proof -
  from clean_batch_nth[OF assms(1)] assms(2) obtain w where
    len: "length movies = length rows"
    and c: "clean_record L (rows ! k) = Inr (movies ! k, w)"
    by blast
  from assms(2,3) len have last:
    "last_set movies (dict_get (movies ! k) ''id'') = Some (set_clause (movies ! k))"
    by (intro last_set_nth) simp_all
  from assms(2) len have mem: "movies ! k \<in> set movies" by simp
  from defaults_on_nodes[OF c last mem movie_nodes_run_upsert] show ?thesis .
qed

lemma last_of_two_movies:
  "\<forall>j. 0 < j \<and> j < length two_movies \<longrightarrow>
       dict_get (two_movies_clean ! j) ''id'' \<noteq> dict_get (two_movies_clean ! 0) ''id''"
  by (auto simp: two_movies_def two_movies_clean_def dict_get_def nth_Cons split: nat.splits)

lemma quiet_example_env: "\<forall>n. outcome_of (example_env df []) n = Ok"
  by (simp add: example_env_fields scripted_def)

lemma load_two_movies:
  "store (snd (load_movies (example_env two_movies []) ''movies.csv'' example_loader))
     = run_upsert two_movies_clean empty_graph"
  using quiet_load_movies(2)[OF quiet_example_env, of two_movies "''movies.csv''" two_movies example_loader]
    applied_all_clean[OF clean_two_movies, of 0]
  by (simp add: example_env_fields example_loader_def)

lemma clean_same_id_twice:
  "clean_batch L same_id_twice
     = (Inr [[(''id'', PInt 1), (''vote_average'', PNone)],
             [(''id'', PInt 1), (''vote_average'', PFloat 8)]], [])"
  by (simp add: same_id_twice_def clean_record_def)

lemma upsert_same_id_twice:
  "run_upsert [[(''id'', PInt 1), (''vote_average'', PNone)],
               [(''id'', PInt 1), (''vote_average'', PFloat 8)]] empty_graph
     = \<lparr>movie_nodes =
          [(PInt 1, \<lparr>title = PNone, overview = PNone, release_date = PNone,
                      vote_average = PFloat 8, vote_count = PInt 0, popularity = PFloat 0\<rparr>)],
        genre_nodes = [], has_genre = []\<rparr>"
  by (simp add: run_upsert_def empty_graph_def merge_movie_def merge_set_def
      set_clause_def dict_get_def case_not_null_def merge_genres_def merge_genre_def merge_item_def)

text \<open>
  C6, as the code has it. A list of records is cleaned; take the record at position
  \<open>k\<close>. A vote field the record does not have (the cell is missing, None or NaN) is None
  in the clean record, never NaN. The \<open>MERGE\<close> and \<open>SET\<close> of this record leave a Movie
  node with its id, and every node with this id then has the default for each absent
  field: \<open>vote_average\<close> 0.0, \<open>vote_count\<close> 0, \<open>popularity\<close> 0.0. When no later
  record of the list has the same id, this is what the store holds after the upsert:
  after \<open>_process_movie_batch\<close> has returned on the list as a batch, and after
  \<open>load_movies\<close> has returned on the list as the frame, in a run where no call on the
  store raises.
\<close>

theorem absent_votes_stored_as_defaults:
  assumes cleaned: "clean_batch L rows = (Inr movies, ws)" and k: "k < length rows"
  shows "(absent (rows ! k) ''vote_average'' \<longrightarrow> dict_get (movies ! k) ''vote_average'' = PNone)
       \<and> (absent (rows ! k) ''vote_count'' \<longrightarrow> dict_get (movies ! k) ''vote_count'' = PNone)
       \<and> (absent (rows ! k) ''popularity'' \<longrightarrow> dict_get (movies ! k) ''popularity'' = PNone)
       \<and> (\<forall>g. defaults_stored (rows ! k) (dict_get (movies ! k) ''id'') (merge_movie (movies ! k) g))
       \<and> ((\<forall>j. k < j \<and> j < length rows \<longrightarrow>
                dict_get (movies ! j) ''id'' \<noteq> dict_get (movies ! k) ''id'') \<longrightarrow>
            (\<forall>E s s'. library E = L \<and> process_movie_batch E rows s = (None, s') \<longrightarrow>
               defaults_stored (rows ! k) (dict_get (movies ! k) ''id'') (store s'))
          \<and> (\<forall>E p s. library E = L \<and> (\<forall>n. outcome_of E n = Ok) \<and> path_exists E p
                       \<and> read_csv E p = Inr rows \<longrightarrow>
               fst (load_movies E p s) = None
             \<and> defaults_stored (rows ! k) (dict_get (movies ! k) ''id'')
                 (store (snd (load_movies E p s)))))"
proof -
  from clean_batch_nth[OF cleaned] k obtain w where
    c: "clean_record L (rows ! k) = Inr (movies ! k, w)"
    by blast
  have marker: "dict_get (movies ! k) f = PNone" if "absent (rows ! k) f" and "f \<noteq> ''genres''" for f
    using that absent_cell_cleaned[OF c] by (auto simp: absent_def)
  have own: "\<forall>g. defaults_stored (rows ! k) (dict_get (movies ! k) ''id'') (merge_movie (movies ! k) g)"
    using defaults_after_merge_movie[OF c] by blast
  have batch: "defaults_stored (rows ! k) (dict_get (movies ! k) ''id'') (store s')"
    if last: "\<forall>j. k < j \<and> j < length rows \<longrightarrow>
                dict_get (movies ! j) ''id'' \<noteq> dict_get (movies ! k) ''id''"
      and E: "library E = L" and run: "process_movie_batch E rows s = (None, s')" for E s s'
  proof -
    from cleaned E have "clean_batch (library E) rows = (Inr movies, ws)" by simp
    from process_movie_batch_store(2)[OF this run] have "store s' = run_upsert movies (store s)"
      by simp
    with defaults_after_run_upsert[OF cleaned k last] show ?thesis by simp
  qed
  have load: "fst (load_movies E p s) = None
             \<and> defaults_stored (rows ! k) (dict_get (movies ! k) ''id'')
                 (store (snd (load_movies E p s)))"
    if last: "\<forall>j. k < j \<and> j < length rows \<longrightarrow>
                dict_get (movies ! j) ''id'' \<noteq> dict_get (movies ! k) ''id''"
      and E: "library E = L" and quiet: "\<forall>n. outcome_of E n = Ok" and p: "path_exists E p"
      and df: "read_csv E p = Inr rows" for E p s
  proof -
    from quiet_load_movies[OF quiet p df, of s] applied_all_clean[OF cleaned, of 0] E
    have "fst (load_movies E p s) = None"
      and "store (snd (load_movies E p s)) = run_upsert movies (store s)"
      by simp_all
    with defaults_after_run_upsert[OF cleaned k last] show ?thesis by simp
  qed
  from marker own batch load show ?thesis by (intro conjI impI allI) (simp | blast)+
qed

theorem absent_votes_stored_as_defaults_witness:
  "clean_batch example_library two_movies = (Inr two_movies_clean, [])
   \<and> (0::nat) < length two_movies
   \<and> absent (two_movies ! 0) ''vote_average''
   \<and> absent (two_movies ! 0) ''vote_count''
   \<and> absent (two_movies ! 0) ''popularity''
   \<and> dict_get (two_movies_clean ! 0) ''vote_average'' = PNone
   \<and> dict_get (two_movies_clean ! 0) ''vote_count'' = PNone
   \<and> dict_get (two_movies_clean ! 0) ''popularity'' = PNone
   \<and> dict_get (two_movies_clean ! 0) ''id'' = PInt 1
   \<and> defaults_stored (two_movies ! 0) (PInt 1) (merge_movie (two_movies_clean ! 0) empty_graph)
   \<and> library (example_env two_movies []) = example_library
   \<and> (\<forall>n. outcome_of (example_env two_movies []) n = Ok)
   \<and> path_exists (example_env two_movies []) ''movies.csv''
   \<and> read_csv (example_env two_movies []) ''movies.csv'' = Inr two_movies
   \<and> process_movie_batch (example_env two_movies []) two_movies example_loader
       = (None, example_loader\<lparr>calls := 1, trace := [Run 0 (Upsert two_movies_clean)],
                               store := run_upsert two_movies_clean empty_graph\<rparr>)
   \<and> defaults_stored (two_movies ! 0) (PInt 1) (run_upsert two_movies_clean empty_graph)
   \<and> fst (load_movies (example_env two_movies []) ''movies.csv'' example_loader) = None
   \<and> defaults_stored (two_movies ! 0) (PInt 1)
       (store (snd (load_movies (example_env two_movies []) ''movies.csv'' example_loader)))
   \<and> map (\<lambda>n. (vote_average (snd n), vote_count (snd n), popularity (snd n)))
         (filter (\<lambda>n. fst n = PInt 1)
            (movie_nodes (store (snd (load_movies (example_env two_movies []) ''movies.csv''
                                        example_loader)))))
       = [(PFloat 0, PInt 0, PFloat 0)]"
proof -
  let ?E = "example_env two_movies []"
  let ?s' = "example_loader\<lparr>calls := 1, trace := [Run 0 (Upsert two_movies_clean)],
                             store := run_upsert two_movies_clean empty_graph\<rparr>"
  have k: "(0::nat) < length two_movies" by (simp add: two_movies_def)
  have cells: "absent (two_movies ! 0) ''vote_average''" "absent (two_movies ! 0) ''vote_count''"
    "absent (two_movies ! 0) ''popularity''"
    by (simp_all add: absent_def two_movies_def dict_get_def)
  have i: "dict_get (two_movies_clean ! 0) ''id'' = PInt 1"
    by (simp add: two_movies_clean_def dict_get_def)
  have env: "library ?E = example_library" "\<forall>n. outcome_of ?E n = Ok"
    "path_exists ?E ''movies.csv''" "read_csv ?E ''movies.csv'' = Inr two_movies"
    by (simp_all add: example_env_fields scripted_def)
  have run: "process_movie_batch ?E two_movies example_loader = (None, ?s')"
    by (rule process_two_movies)
  have st: "store ?s' = run_upsert two_movies_clean empty_graph" by simp
  note t = absent_votes_stored_as_defaults[OF clean_two_movies k]
  from t cells have none: "dict_get (two_movies_clean ! 0) ''vote_average'' = PNone"
    "dict_get (two_movies_clean ! 0) ''vote_count'' = PNone"
    "dict_get (two_movies_clean ! 0) ''popularity'' = PNone"
    by blast+
  from t have own: "defaults_stored (two_movies ! 0) (PInt 1) (merge_movie (two_movies_clean ! 0) empty_graph)"
    unfolding i by blast
  from t last_of_two_movies env(1) run
  have "defaults_stored (two_movies ! 0) (dict_get (two_movies_clean ! 0) ''id'') (store ?s')"
    by blast
  then have batch: "defaults_stored (two_movies ! 0) (PInt 1) (run_upsert two_movies_clean empty_graph)"
    by (simp add: i)
  from t last_of_two_movies env
  have "fst (load_movies ?E ''movies.csv'' example_loader) = None
      \<and> defaults_stored (two_movies ! 0) (dict_get (two_movies_clean ! 0) ''id'')
          (store (snd (load_movies ?E ''movies.csv'' example_loader)))"
    by blast
  then have load: "fst (load_movies ?E ''movies.csv'' example_loader) = None"
    "defaults_stored (two_movies ! 0) (PInt 1) (store (snd (load_movies ?E ''movies.csv'' example_loader)))"
    by (simp_all add: i)
  have nodes: "map (\<lambda>n. (vote_average (snd n), vote_count (snd n), popularity (snd n)))
         (filter (\<lambda>n. fst n = PInt 1)
            (movie_nodes (store (snd (load_movies ?E ''movies.csv'' example_loader)))))
       = [(PFloat 0, PInt 0, PFloat 0)]"
    by (simp add: load_two_movies upsert_two_movies)
  from clean_two_movies k cells none i own env run batch load nodes
  show ?thesis by (intro conjI) (assumption | simp)+
qed

text \<open>
  C6 as stated fails for a record that a later record with the same id follows. Of two
  records with the id 1, the first without \<open>vote_average\<close> and the second with 8, the
  batch is cleaned, the call returns, and the only node with the id 1 has the
  \<open>vote_average\<close> 8, not 0.0: the \<open>SET\<close> of the second record overwrites the default.
\<close>

theorem later_record_overwrites_default:
  "absent (same_id_twice ! 0) ''vote_average''
   \<and> process_movie_batch (example_env same_id_twice []) same_id_twice example_loader
       = (None,
          example_loader
            \<lparr>calls := 1,
             trace := [Run 0 (Upsert [[(''id'', PInt 1), (''vote_average'', PNone)],
                                      [(''id'', PInt 1), (''vote_average'', PFloat 8)]])],
             store := \<lparr>movie_nodes =
                         [(PInt 1, \<lparr>title = PNone, overview = PNone, release_date = PNone,
                                     vote_average = PFloat 8, vote_count = PInt 0,
                                     popularity = PFloat 0\<rparr>)],
                       genre_nodes = [], has_genre = []\<rparr>\<rparr>)
   \<and> fst (load_movies (example_env same_id_twice []) ''movies.csv'' example_loader) = None
   \<and> movie_nodes (store (snd (load_movies (example_env same_id_twice []) ''movies.csv''
                                 example_loader)))
       = [(PInt 1, \<lparr>title = PNone, overview = PNone, release_date = PNone,
                    vote_average = PFloat 8, vote_count = PInt 0, popularity = PFloat 0\<rparr>)]
   \<and> \<not> defaults_stored (same_id_twice ! 0) (PInt 1)
         (store (snd (load_movies (example_env same_id_twice []) ''movies.csv'' example_loader)))"
proof -
  let ?E = "example_env same_id_twice []"
  have cell: "absent (same_id_twice ! 0) ''vote_average''"
    by (simp add: absent_def same_id_twice_def dict_get_def)
  have run: "process_movie_batch ?E same_id_twice example_loader
       = (None,
          example_loader
            \<lparr>calls := 1,
             trace := [Run 0 (Upsert [[(''id'', PInt 1), (''vote_average'', PNone)],
                                      [(''id'', PInt 1), (''vote_average'', PFloat 8)]])],
             store := \<lparr>movie_nodes =
                         [(PInt 1, \<lparr>title = PNone, overview = PNone, release_date = PNone,
                                     vote_average = PFloat 8, vote_count = PInt 0,
                                     popularity = PFloat 0\<rparr>)],
                       genre_nodes = [], has_genre = []\<rparr>\<rparr>)"
    by (simp add: process_movie_batch_cases example_env_fields clean_same_id_twice scripted_def
        warnings_def example_loader_def upsert_same_id_twice)
  have ret: "fst (load_movies ?E ''movies.csv'' example_loader) = None"
    using quiet_load_movies(1)[OF quiet_example_env, of same_id_twice "''movies.csv''" same_id_twice]
    by (simp add: example_env_fields)
  have st: "store (snd (load_movies ?E ''movies.csv'' example_loader))
       = \<lparr>movie_nodes =
            [(PInt 1, \<lparr>title = PNone, overview = PNone, release_date = PNone,
                        vote_average = PFloat 8, vote_count = PInt 0, popularity = PFloat 0\<rparr>)],
          genre_nodes = [], has_genre = []\<rparr>"
    using quiet_load_movies(2)[OF quiet_example_env, of same_id_twice "''movies.csv''" same_id_twice
        example_loader]
      applied_all_clean[OF clean_same_id_twice, of example_library 0]
    by (simp add: example_env_fields example_loader_def upsert_same_id_twice)
  have no: "\<not> defaults_stored (same_id_twice ! 0) (PInt 1)
         (store (snd (load_movies ?E ''movies.csv'' example_loader)))"
    by (simp add: st defaults_stored_def cell)
  from cell run ret st no show ?thesis by simp
qed

section \<open>A dataset that is not there\<close>

text \<open>
  C7, as the code has it. When \<open>os.path.exists\<close> is false, \<open>load_movies\<close> logs an error
  and raises \<open>FileNotFoundError\<close> with nothing read. When the path exists and
  \<open>read_csv\<close> raises, that exception is raised. In both cases the caller gets the
  exception, no call on the store was made and the store is as before.
\<close>

theorem load_movies_missing_dataset:
  "(\<not> path_exists E p \<longrightarrow>
      load_movies E p s
        = (Some (Exn FileNotFoundError (''CSV file not found: '' @ p)),
           emit [LogError (CsvNotFound p)] s))
   \<and> (path_exists E p \<and> read_csv E p = Inl e \<longrightarrow>
        load_movies E p s = (Some e, emit [LogInfo (ReadingCsv p), ReadCsv p] s))
   \<and> (\<not> path_exists E p \<or> read_csv E p = Inl e \<longrightarrow>
        fst (load_movies E p s) \<noteq> None
      \<and> store (snd (load_movies E p s)) = store s
      \<and> calls (snd (load_movies E p s)) = calls s)"
  by (auto simp: load_movies_def emit_def)

theorem load_movies_missing_dataset_witness:
  "\<not> path_exists (example_env [] []) ''nothing.csv''
   \<and> load_movies (example_env [] []) ''nothing.csv'' example_loader
       = (Some (Exn FileNotFoundError ''CSV file not found: nothing.csv''),
          example_loader\<lparr>trace := [LogError (CsvNotFound ''nothing.csv'')]\<rparr>)
   \<and> path_exists directory_env ''data'' \<and> read_csv directory_env ''data'' = Inl is_a_directory
   \<and> store (snd (load_movies directory_env ''data'' example_loader)) = store example_loader
   \<and> calls (snd (load_movies directory_env ''data'' example_loader)) = calls example_loader"
proof -
  have missing: "\<not> path_exists (example_env [] []) ''nothing.csv''"
    by (simp add: example_env_def)
  have there: "path_exists directory_env ''data''" "read_csv directory_env ''data'' = Inl is_a_directory"
    by (simp_all add: directory_env_def)
  from load_movies_missing_dataset[where E = "example_env [] []" and p = "''nothing.csv''"
        and s = example_loader]
    load_movies_missing_dataset[where E = directory_env and p = "''data''"
        and e = is_a_directory and s = example_loader]
    missing there
  show ?thesis by (simp add: emit_def example_loader_def)
qed

text \<open>
  C7 as stated fails: a path that exists and cannot be read is read, and what
  \<open>load_movies\<close> raises is the error of the read, not \<open>FileNotFoundError\<close>.
\<close>

theorem unreadable_path_is_read:
  "path_exists directory_env ''data''
   \<and> load_movies directory_env ''data'' example_loader
       = (Some (Exn ReadError ''Is a directory''),
          example_loader\<lparr>trace := [LogInfo (ReadingCsv ''data''), ReadCsv ''data'']\<rparr>)"
  by (simp add: load_movies_def directory_env_def is_a_directory_def emit_def example_loader_def)

section \<open>The connection of the query interface\<close>

text \<open>
  C8. \<open>_initialize_connections\<close> tries the connection once; after a failure it warns,
  waits 2 and tries again; after a second failure it warns, waits 2 and tries a third
  time, and the result of the third attempt is the result of the loop. So there are one
  to three attempts with the stored uri, user and password, one wait of 2 less than
  attempts, and a loop that ends in an exception has made three. That exception is what
  \<open>_initialize_connections\<close> raises, and what the constructor raises to its caller.
\<close>

theorem initialization_retries_three_times:
  "connect_loop E 0 q =
     (let a1 = try_connect E q
      in if fst a1 = None then a1
         else (let a2 = try_connect E (qemit [AttemptFailed 1, QSleep 2] (snd a1))
               in if fst a2 = None then a2
                  else try_connect E (qemit [AttemptFailed 2, QSleep 2] (snd a2))))
   \<and> (\<exists>k. 1 \<le> k \<and> k \<le> 3
         \<and> filter is_new_graph (q_trace (snd (connect_loop E 0 q)))
             = filter is_new_graph (q_trace q)
               @ replicate k (NewGraph (q_uri q) (q_username q) (q_password q))
         \<and> filter is_qsleep (q_trace (snd (connect_loop E 0 q)))
             = filter is_qsleep (q_trace q) @ replicate (k - 1) (QSleep 2)
         \<and> (fst (connect_loop E 0 q) \<noteq> None \<longrightarrow> k = 3))
   \<and> (fst (connect_loop E 0 q) \<noteq> None \<longrightarrow>
        initialize_connections E q = connect_loop E 0 q)
   \<and> (q = \<lparr>q_uri = u, q_username = usr, q_password = pw, gemini_api_key = key,
             graph_of = None, llm_of = None, qa_chain = None, q_calls = 0, q_trace = []\<rparr>
        \<and> fst (connect_loop E 0 q) \<noteq> None \<longrightarrow>
        new_query_interface E u usr pw key = connect_loop E 0 q)"
proof -
  have propagates: "initialize_connections E q = connect_loop E 0 q" if "fst (connect_loop E 0 q) \<noteq> None"
    using that by (cases "connect_loop E 0 q") (auto simp: initialize_connections_def)
  then have "new_query_interface E u usr pw key = connect_loop E 0 q"
    if "q = \<lparr>q_uri = u, q_username = usr, q_password = pw, gemini_api_key = key,
             graph_of = None, llm_of = None, qa_chain = None, q_calls = 0, q_trace = []\<rparr>"
      and "fst (connect_loop E 0 q) \<noteq> None"
    using that by (simp add: new_query_interface_def)
  with propagates connect_loop_unrolled[of E q] connect_loop_events[of E q] show ?thesis
    by blast
qed

theorem initialization_retries_three_times_witness:
  "new_query_interface down_qenv ''bolt://localhost:7687'' ''neo4j'' ''secret'' ''key''
     = (Some refused,
        \<lparr>q_uri = ''bolt://localhost:7687'', q_username = ''neo4j'', q_password = ''secret'',
         gemini_api_key = ''key'', graph_of = None, llm_of = None, qa_chain = None,
         q_calls = 3,
         q_trace = [NewGraph ''bolt://localhost:7687'' ''neo4j'' ''secret'', AttemptFailed 1, QSleep 2,
                    NewGraph ''bolt://localhost:7687'' ''neo4j'' ''secret'', AttemptFailed 2, QSleep 2,
                    NewGraph ''bolt://localhost:7687'' ''neo4j'' ''secret'']\<rparr>)"
proof -
  let ?q = "\<lparr>q_uri = ''bolt://localhost:7687'', q_username = ''neo4j'', q_password = ''secret'',
         gemini_api_key = ''key'', graph_of = None, llm_of = None, qa_chain = None,
         q_calls = 0, q_trace = []\<rparr>"
  let ?r = "(Some refused,
        \<lparr>q_uri = ''bolt://localhost:7687'', q_username = ''neo4j'', q_password = ''secret'',
         gemini_api_key = ''key'', graph_of = None, llm_of = None, qa_chain = None,
         q_calls = 3,
         q_trace = [NewGraph ''bolt://localhost:7687'' ''neo4j'' ''secret'', AttemptFailed 1, QSleep 2,
                    NewGraph ''bolt://localhost:7687'' ''neo4j'' ''secret'', AttemptFailed 2, QSleep 2,
                    NewGraph ''bolt://localhost:7687'' ''neo4j'' ''secret'']\<rparr>)"
  note t = initialization_retries_three_times[where E = down_qenv and q = ?q
      and u = "''bolt://localhost:7687''" and usr = "''neo4j''" and pw = "''secret''" and key = "''key''"]
  have loop: "connect_loop down_qenv 0 ?q = ?r"
    using t by (simp add: try_connect_def qcall_def qemit_def down_qenv_def Let_def)
  with t show ?thesis by simp
qed

section \<open>The connection check of the loader\<close>

text \<open>
  C9, as the code has it. \<open>_ensure_connection\<close> runs the probe. When the probe
  returns, nothing else happens and the handle stays. When it raises, the handle is
  closed; an exception of \<open>close\<close> is not caught: it leaves \<open>_ensure_connection\<close>
  before the wait and before any new handle is opened. When \<open>close\<close> returns, the
  loader waits 1 and opens one new handle from the stored uri, user and password; an
  exception of that call leaves \<open>_ensure_connection\<close> too, and there is no second
  attempt.
\<close>

theorem ensure_connection_cases:
  "ensure_connection E s =
     (let probe = Run (h_serial (driver s)) Probe;
          closing = [probe, LogInfo Reconnecting, CloseDriver (h_serial (driver s))];
          opening = closing @ [Sleep 1, OpenDriver (uri s) (username s) (password s)]
      in case raised (outcome_of E (calls s)) of
           None \<Rightarrow> (None, s\<lparr>calls := calls s + 1, trace := trace s @ [probe]\<rparr>)
         | Some e \<Rightarrow>
             (case raised (outcome_of E (calls s + 1)) of
                Some e' \<Rightarrow> (Some e', s\<lparr>calls := calls s + 2, trace := trace s @ closing\<rparr>)
              | None \<Rightarrow>
                  (case raised (outcome_of E (calls s + 2)) of
                     Some e'' \<Rightarrow> (Some e'', s\<lparr>calls := calls s + 3, trace := trace s @ opening\<rparr>)
                   | None \<Rightarrow>
                       (None, s\<lparr>calls := calls s + 3, trace := trace s @ opening,
                                driver := \<lparr>h_uri = uri s, h_user = username s,
                                           h_password = password s,
                                           h_serial = Suc (h_serial (driver s))\<rparr>\<rparr>))))"
  by (simp add: ensure_connection_def session_run_def driver_close_def open_driver_def emit_def
      Let_def split: option.splits)

text \<open>
  C9 as stated fails: with a probe that raises and a \<open>close\<close> that raises, the
  exception of \<open>close\<close> is raised to the caller, there is no wait, and the loader
  keeps the old handle.
\<close>

theorem ensure_connection_close_raises:
  "fst (ensure_connection (example_env [] [Raises probe_down, Raises close_failed]) example_loader)
     = Some close_failed
   \<and> trace (snd (ensure_connection (example_env [] [Raises probe_down, Raises close_failed])
                 example_loader))
     = [Run 0 Probe, LogInfo Reconnecting, CloseDriver 0]
   \<and> driver (snd (ensure_connection (example_env [] [Raises probe_down, Raises close_failed])
                  example_loader))
     = driver example_loader"
  by (simp add: ensure_connection_def session_run_def driver_close_def open_driver_def emit_def
      Let_def example_env_def scripted_def example_loader_def)

section \<open>The counter of processed records\<close>

text \<open>
  C10. After a turn of the loop \<open>total_processed\<close> has grown by the length of the batch
  when the first \<open>_process_movie_batch\<close> returned, and not at all otherwise. A batch
  whose first attempt raised and whose retry returned is in the store, is not counted,
  has no progress report, and has no probe but those of the handler's own check.
\<close>

theorem total_processed_skips_recovered_batches:
  "snd (snd (load_batch E df i (s, tp)))
     = (if fst (process_movie_batch E (take batch_size (drop i df)) s) = None
        then tp + length (take batch_size (drop i df)) else tp)
   \<and> (process_movie_batch E (take batch_size (drop i df)) s = (Some e, s1)
      \<and> ensure_connection E (emit [LogError (BatchError i (i + batch_size) e)] s1) = (None, s2)
      \<and> fst (process_movie_batch E (take batch_size (drop i df)) s2) = None
      \<and> clean_batch (library E) (take batch_size (drop i df)) = (Inr cleaned, ws)
      \<longrightarrow> fst (load_batch E df i (s, tp)) = None
        \<and> store (fst (snd (load_batch E df i (s, tp)))) = run_upsert cleaned (store s)
        \<and> snd (snd (load_batch E df i (s, tp))) = tp
        \<and> filter is_progress (trace (fst (snd (load_batch E df i (s, tp)))))
            = filter is_progress (trace s)
        \<and> filter is_probe (trace (fst (snd (load_batch E df i (s, tp)))))
            = filter is_probe (trace s2))"
proof -
  let ?batch = "take batch_size (drop i df)"
  have recovered: "fst (load_batch E df i (s, tp)) = None
        \<and> store (fst (snd (load_batch E df i (s, tp)))) = run_upsert cleaned (store s)
        \<and> snd (snd (load_batch E df i (s, tp))) = tp
        \<and> filter is_progress (trace (fst (snd (load_batch E df i (s, tp)))))
            = filter is_progress (trace s)
        \<and> filter is_probe (trace (fst (snd (load_batch E df i (s, tp)))))
            = filter is_probe (trace s2)"
    if first: "process_movie_batch E ?batch s = (Some e, s1)"
      and check: "ensure_connection E (emit [LogError (BatchError i (i + batch_size) e)] s1) = (None, s2)"
      and retry: "fst (process_movie_batch E ?batch s2) = None"
      and cl: "clean_batch (library E) ?batch = (Inr cleaned, ws)"
  proof -
    note lb = load_batch_after_failure[OF first, of tp]
    from retry cl have "raised (outcome_of E (calls s2)) = None"
      by (simp add: process_movie_batch_cases)
    then have c: "committed (outcome_of E (calls s2))"
      by (cases "outcome_of E (calls s2)") simp_all
    have lbv: "load_batch E df i (s, tp) = (None, snd (process_movie_batch E ?batch s2), tp)"
      using lb check retry by (auto split: prod.splits option.splits)
    have pr: "filter is_probe (trace (snd (process_movie_batch E ?batch s2))) = filter is_probe (trace s2)"
      by (simp add: process_movie_batch_cases warnings_def emit_def filter_map comp_def
          split: prod.splits sum.splits)
    show ?thesis
      using load_batch_retry_effects(1,3)[OF first check cl, of tp] c lbv pr by simp
  qed
  show ?thesis
    using load_batch_total[of E df i s tp] recovered by blast
qed

theorem total_processed_skips_recovered_batches_witness:
  "process_movie_batch (example_env [] [Raises upsert_failed]) (take batch_size (drop 0 two_movies))
       example_loader
     = (Some upsert_failed, example_loader\<lparr>calls := 1, trace := [Run 0 (Upsert two_movies_clean)]\<rparr>)
   \<and> clean_batch (library (example_env [] [Raises upsert_failed]))
        (take batch_size (drop 0 two_movies)) = (Inr two_movies_clean, [])
   \<and> load_batch (example_env [] [Raises upsert_failed]) two_movies 0 (example_loader, 0)
     = (None,
        example_loader\<lparr>calls := 3,
                        trace := [Run 0 (Upsert two_movies_clean),
                                  LogError (BatchError 0 40000 upsert_failed),
                                  Run 0 Probe, Run 0 (Upsert two_movies_clean)],
                        store := run_upsert two_movies_clean empty_graph\<rparr>,
        0)
   \<and> filter is_progress
         (trace (snd (load_movies (example_env (replicate 50000 one_row) [Ok, Ok, Raises upsert_failed])
                        ''movies.csv'' example_loader)))
     = [LogInfo (Processed 10000 50000)]
   \<and> filter is_probe
         (trace (snd (load_movies (example_env (replicate 50000 one_row) [Ok, Ok, Raises upsert_failed])
                        ''movies.csv'' example_loader)))
     = [Run 0 Probe]"
proof -
  let ?E = "example_env [] [Raises upsert_failed]"
  let ?s1 = "example_loader\<lparr>calls := 1, trace := [Run 0 (Upsert two_movies_clean)]\<rparr>"
  let ?s2 = "example_loader\<lparr>calls := 2,
                  trace := [Run 0 (Upsert two_movies_clean),
                            LogError (BatchError 0 40000 upsert_failed), Run 0 Probe]\<rparr>"
  have first: "process_movie_batch ?E (take batch_size (drop 0 two_movies)) example_loader
                 = (Some upsert_failed, ?s1)"
    by (simp add: take_two_movies process_two_movies_failing)
  have check: "ensure_connection ?E (emit [LogError (BatchError 0 (0 + batch_size) upsert_failed)] ?s1)
                 = (None, ?s2)"
    by (simp add: ensure_connection_def session_run_def emit_def Let_def example_env_fields
        scripted_def batch_size_def example_loader_def)
  have retry: "fst (process_movie_batch ?E (take batch_size (drop 0 two_movies)) ?s2) = None"
    by (simp add: take_two_movies process_movie_batch_cases example_env_fields clean_two_movies
        scripted_def example_loader_def)
  have cl: "clean_batch (library ?E) (take batch_size (drop 0 two_movies)) = (Inr two_movies_clean, [])"
    by (simp add: take_two_movies example_env_fields clean_two_movies)
  from total_processed_skips_recovered_batches[where E = ?E and df = two_movies and i = 0
      and s = example_loader and tp = 0 and e = upsert_failed and ?s1.0 = ?s1 and ?s2.0 = ?s2
      and cleaned = two_movies_clean and ws = "[]"]
    first check retry cl
  show ?thesis by (simp add: retry_two_movies recovered_run)
qed

end
